theory Spec2Isabelle
  imports Complex_Main "HOL-Library.Sublist" "HOL-Library.Log_Nat"
begin

text \<open>
  A shallow embedding of the scoring core of the Excel mock interviewer: the formula
  parser, the grid differ, the action tracker and the task evaluator of
  \<^verbatim>\<open>src/lib/spreadsheet-utils.ts\<close>, the session state machine of
  \<^verbatim>\<open>src/lib/excel-interview-state-manager.ts\<close> and the skill level recommendation of
  the skill configuration service.

  Conventions. A JavaScript string is a \<open>string\<close>, one \<open>char\<close> per code unit, so the
  model covers the strings whose code units are below 256. A JavaScript number that
  counts the elements of a list or is a time stamp is an \<open>int\<close>. The column indices of
  \<open>CellUtils\<close> are doubles and are rounded as doubles are. A score, which the code
  divides, is a \<open>rat\<close> and its arithmetic is exact. An optional
  field is an \<open>option\<close>, with \<open>None\<close> for \<open>undefined\<close>. Every read of the clock
  (\<open>Date.now()\<close>, \<open>new Date()\<close>) is a parameter \<open>now\<close> of the operation that reads it.
\<close>

section \<open>Characters and strings\<close>

definition fromCharCode :: "int \<Rightarrow> char" where
  "fromCharCode n = char_of n"

definition charCode :: "char \<Rightarrow> int" where
  "charCode c = of_char c"

text \<open>The character classes of the two regular expressions: \<open>[A-Z]\<close>, \<open>[0-9]\<close>,
  \<open>[A-Z0-9_]\<close> and \<open>\s\<close> (the white space and line terminator code units below 256).\<close>

definition isUpper :: "char \<Rightarrow> bool" where
  "isUpper c = (65 \<le> charCode c \<and> charCode c \<le> 90)"

definition isDigit :: "char \<Rightarrow> bool" where
  "isDigit c = (48 \<le> charCode c \<and> charCode c \<le> 57)"

definition isIdentChar :: "char \<Rightarrow> bool" where
  "isIdentChar c = (isUpper c \<or> isDigit c \<or> c = CHR ''_'')"

definition isSpace :: "char \<Rightarrow> bool" where
  "isSpace c = (charCode c = 9 \<or> charCode c = 10 \<or> charCode c = 11 \<or> charCode c = 12
     \<or> charCode c = 13 \<or> charCode c = 32 \<or> charCode c = 160)"

text \<open>\<open>s.startsWith(p)\<close> and \<open>s.includes(p)\<close>.\<close>

fun startsWith :: "string \<Rightarrow> string \<Rightarrow> bool" where
  "startsWith s [] = True"
| "startsWith [] (p # ps) = False"
| "startsWith (c # cs) (p # ps) = (c = p \<and> startsWith cs ps)"

fun includes_str :: "string \<Rightarrow> string \<Rightarrow> bool" where
  "includes_str [] p = (p = [])"
| "includes_str (c # cs) p = (startsWith (c # cs) p \<or> includes_str cs p)"

text \<open>The decimal text of a non-negative integer, as a template literal prints it.\<close>

fun natToString :: "nat \<Rightarrow> string" where
  "natToString n =
     (if n < 10 then [fromCharCode (48 + int n)]
      else natToString (n div 10) @ [fromCharCode (48 + int (n mod 10))])"

declare natToString.simps [simp del]

section \<open>Formula parser (class FormulaParser)\<close>

record ParsedFormula =
  functions_list :: "string list"
  references :: "string list"
  isValid :: bool
  complexity :: int

text \<open>
  One attempt of \<open>/([A-Z][A-Z0-9_]*)\s*\(/\<close> at the head of the text: the captured name
  and the text after the match. The two starred classes are disjoint from what follows
  them (an identifier character is neither white space nor a parenthesis, white space
  is not a parenthesis), so the greedy runs are the only way to match and backtracking
  never finds another.
\<close>

definition matchFunctionAt :: "string \<Rightarrow> (string \<times> string) option" where
  "matchFunctionAt s =
     (case s of
        [] \<Rightarrow> None
      | c # cs \<Rightarrow>
          if isUpper c then
            (case dropWhile isSpace (dropWhile isIdentChar cs) of
               [] \<Rightarrow> None
             | p # rest \<Rightarrow>
                 if p = CHR ''('' then Some (c # takeWhile isIdentChar cs, rest) else None)
          else None)"

lemma matchFunctionAt_shorter:
  "matchFunctionAt s = Some (name, rest) \<Longrightarrow> length rest < length s"
proof -
  assume a: "matchFunctionAt s = Some (name, rest)"
  then obtain c cs where s: "s = c # cs" by (cases s) (auto simp: matchFunctionAt_def)
  from a s obtain p where "dropWhile isSpace (dropWhile isIdentChar cs) = p # rest"
    by (auto simp: matchFunctionAt_def split: list.splits if_splits)
  then have "Suc (length rest) = length (dropWhile isSpace (dropWhile isIdentChar cs))"
    by simp
  also have "\<dots> \<le> length (dropWhile isIdentChar cs)" by (rule length_dropWhile_le)
  also have "\<dots> \<le> length cs" by (rule length_dropWhile_le)
  finally show ?thesis using s by simp
qed

text \<open>The \<open>while ((match = functionRegex.exec(formula)) !== null)\<close> loop of a global
  regular expression: a match resumes the search after itself, a failure at one
  position moves the search one code unit on.\<close>

function functionMatches :: "string \<Rightarrow> string list" where
  "functionMatches s =
     (if s = [] then []
      else (case matchFunctionAt s of
              Some (name, rest) \<Rightarrow> name # functionMatches rest
            | None \<Rightarrow> functionMatches (tl s)))"
  by pat_completeness auto
termination
  by (relation "measure length") (auto dest: matchFunctionAt_shorter)

declare functionMatches.simps [simp del]

text \<open>One attempt of \<open>/([A-Z]+[0-9]+(?::[A-Z]+[0-9]+)?)/\<close> at the head of the text.
  \<open>matchColRow\<close> is \<open>[A-Z]+[0-9]+\<close>; the optional group is taken when it matches.\<close>

definition matchColRow :: "string \<Rightarrow> (string \<times> string) option" where
  "matchColRow s =
     (let letters = takeWhile isUpper s; r1 = dropWhile isUpper s;
          digits = takeWhile isDigit r1; r2 = dropWhile isDigit r1
      in if letters = [] \<or> digits = [] then None else Some (letters @ digits, r2))"

definition matchReferenceAt :: "string \<Rightarrow> (string \<times> string) option" where
  "matchReferenceAt s =
     (case matchColRow s of
        None \<Rightarrow> None
      | Some (first, r) \<Rightarrow>
          (case r of
             [] \<Rightarrow> Some (first, r)
           | p # r' \<Rightarrow>
               if p = CHR '':'' then
                 (case matchColRow r' of
                    None \<Rightarrow> Some (first, r)
                  | Some (second, r'') \<Rightarrow> Some (first @ '':'' @ second, r''))
               else Some (first, r)))"

lemma matchColRow_shorter:
  "matchColRow s = Some (m, rest) \<Longrightarrow> length rest < length s"
proof -
  assume a: "matchColRow s = Some (m, rest)"
  then have ne: "takeWhile isUpper s \<noteq> []" and r: "rest = dropWhile isDigit (dropWhile isUpper s)"
    by (auto simp: matchColRow_def Let_def split: if_splits)
  have "length (takeWhile isUpper s) + length (dropWhile isUpper s) = length s"
    by (metis length_append takeWhile_dropWhile_id)
  moreover have "length rest \<le> length (dropWhile isUpper s)"
    unfolding r by (rule length_dropWhile_le)
  moreover have "0 < length (takeWhile isUpper s)" using ne by simp
  ultimately show ?thesis by linarith
qed

lemma matchReferenceAt_shorter:
  "matchReferenceAt s = Some (m, rest) \<Longrightarrow> length rest < length s"
  by (fastforce simp: matchReferenceAt_def split: option.splits list.splits if_splits
      dest: matchColRow_shorter)

function referenceMatches :: "string \<Rightarrow> string list" where
  "referenceMatches s =
     (if s = [] then []
      else (case matchReferenceAt s of
              Some (ref, rest) \<Rightarrow> ref # referenceMatches rest
            | None \<Rightarrow> referenceMatches (tl s)))"
  by pat_completeness auto
termination
  by (relation "measure length") (auto dest: matchReferenceAt_shorter)

declare referenceMatches.simps [simp del]

text \<open>\<open>complexityMap[functionName] || 2\<close>: every weight of the table is non-zero, so the
  default is taken exactly for the names that are not keys.\<close>

definition getFunctionComplexity :: "string \<Rightarrow> int" where
  "getFunctionComplexity functionName =
     (if functionName = ''SUM'' then 1
      else if functionName = ''AVERAGE'' then 1
      else if functionName = ''COUNT'' then 1
      else if functionName = ''MAX'' then 1
      else if functionName = ''MIN'' then 1
      else if functionName = ''IF'' then 2
      else if functionName = ''SUMIF'' then 2
      else if functionName = ''COUNTIF'' then 2
      else if functionName = ''VLOOKUP'' then 3
      else if functionName = ''HLOOKUP'' then 3
      else if functionName = ''INDEX'' then 3
      else if functionName = ''MATCH'' then 3
      else if functionName = ''INDIRECT'' then 4
      else if functionName = ''OFFSET'' then 4
      else if functionName = ''SUMPRODUCT'' then 4
      else if functionName = ''ARRAY'' then 5
      else 2)"

text \<open>\<open>validateFormula\<close>: the counter of open parentheses, with the early \<open>return false\<close>
  as soon as it is negative. Nothing in the body throws, so the \<open>catch\<close> branch is dead.\<close>

fun validateFormula_loop :: "int \<Rightarrow> string \<Rightarrow> bool" where
  "validateFormula_loop openParens [] = (openParens = 0)"
| "validateFormula_loop openParens (ch # rest) =
     (let o1 = (if ch = CHR ''('' then openParens + 1 else openParens);
          o2 = (if ch = CHR '')'' then o1 - 1 else o1)
      in if o2 < 0 then False else validateFormula_loop o2 rest)"

definition validateFormula :: "string \<Rightarrow> bool" where
  "validateFormula formula = validateFormula_loop 0 formula"

definition parseFormula :: "string \<Rightarrow> ParsedFormula" where
  "parseFormula formula =
     (if formula = [] \<or> \<not> startsWith formula ''=''
      then \<lparr>functions_list = [], references = [], isValid = False, complexity = 0\<rparr>
      else
        let fs = functionMatches formula;
            c = foldl (\<lambda>acc name. acc + getFunctionComplexity name) 0 fs;
            rs = referenceMatches formula
        in \<lparr>functions_list = fs, references = rs, isValid = validateFormula formula,
            complexity = c\<rparr>)"

text \<open>The reading of the specification: the running count of open parentheses, the
  opened minus the closed ones of a prefix, is never negative and is zero at the end.\<close>

text \<open>What one character adds to the count of open parentheses.\<close>

definition parenDelta :: "char \<Rightarrow> int" where
  "parenDelta c = (if c = CHR ''('' then 1 else if c = CHR '')'' then - 1 else 0)"

definition parenDepth :: "string \<Rightarrow> int" where
  "parenDepth s = int (count_list s (CHR ''('')) - int (count_list s (CHR '')''))"

definition balancedParens :: "string \<Rightarrow> bool" where
  "balancedParens s = ((\<forall>n \<le> length s. 0 \<le> parenDepth (take n s)) \<and> parenDepth s = 0)"

section \<open>Double precision numbers\<close>

text \<open>
  The numbers of JavaScript are IEEE 754 doubles: 53 significant bits, results rounded
  to the nearest double with ties to the even one. \<open>floorLog2 x\<close> is the exponent \<open>e\<close>
  with \<open>2 ^ e \<le> x < 2 ^ (e + 1)\<close> of a positive \<open>x\<close>; \<open>roundToDouble x\<close> is the double
  nearest to \<open>x\<close>, on the grid of spacing \<open>2 ^ (e - 52)\<close>, which is no finer than the
  subnormal spacing \<open>2 ^ - 1074\<close>. Overflow is treated where a result can overflow.
\<close>

definition floorLog2 :: "rat \<Rightarrow> int" where
  "floorLog2 x =
     (let e0 = bitlen (fst (quotient_of x)) - bitlen (snd (quotient_of x))
      in if 2 powi e0 \<le> x then e0 else e0 - 1)"

definition roundHalfEven :: "rat \<Rightarrow> int" where
  "roundHalfEven q =
     (let n = \<lfloor>q\<rfloor>; r = q - of_int n
      in if r < 1 / 2 then n else if 1 / 2 < r then n + 1 else if even n then n else n + 1)"

definition roundToDouble :: "rat \<Rightarrow> rat" where
  "roundToDouble x =
     (if x = 0 then 0
      else let e = max (floorLog2 \<bar>x\<bar>) (- 1022); u = 2 powi (e - 52)
           in of_int (roundHalfEven (x / u)) * u)"


text \<open>The rounding error, the exactness on the integers up to \<open>2 ^ 53\<close>, and with them
  the decrease of \<open>nextColumn\<close> that makes the loop of \<open>columnToLetter\<close> end.\<close>

lemma two_powi_pos: "0 < (2::rat) powi e"
  by simp

lemma floorLog2_le:
  assumes "0 < x"
  shows "2 powi (floorLog2 x) \<le> x"
proof -
  obtain p q where pq: "quotient_of x = (p, q)" by (cases "quotient_of x")
  then have q: "0 < q" by (rule quotient_of_denom_pos)
  from pq have x: "x = of_int p / of_int q" by (rule quotient_of_div)
  with assms q have p: "0 < p" by (simp add: zero_less_divide_iff)
  let ?e0 = "bitlen p - bitlen q"
  show ?thesis
  proof (cases "2 powi ?e0 \<le> x")
    case True
    then show ?thesis by (simp add: floorLog2_def pq Let_def)
  next
    case False
    have bp: "1 \<le> bitlen p" using p bitlen_eq_zero_iff [of p] bitlen_nonneg [of p] by linarith
    have lo: "(2::int) ^ nat (bitlen p - 1) \<le> p" using bitlen_bounds [OF p] by simp
    have hi: "q \<le> 2 ^ nat (bitlen q)" using bitlen_bounds [OF q] by simp
    have "(2::rat) powi (?e0 - 1) = 2 powi (bitlen p - 1) / 2 powi (bitlen q)"
      using power_int_diff [of "2::rat" "bitlen p - 1" "bitlen q"] by (simp add: algebra_simps)
    also have "\<dots> = 2 ^ nat (bitlen p - 1) / 2 ^ nat (bitlen q)"
      using bp bitlen_nonneg [of q] by (simp add: power_int_def)
    also have "\<dots> \<le> of_int p / of_int q"
    proof (rule frac_le)
      show "(0::rat) \<le> of_int p" using p by simp
      have "(of_int ((2::int) ^ nat (bitlen p - 1)) :: rat) \<le> of_int p"
        using lo by (simp only: of_int_le_iff)
      then show "(2::rat) ^ nat (bitlen p - 1) \<le> of_int p" by simp
      show "(0::rat) < of_int q" using q by simp
      have "(of_int q :: rat) \<le> of_int ((2::int) ^ nat (bitlen q))"
        using hi by (simp only: of_int_le_iff)
      then show "(of_int q :: rat) \<le> 2 ^ nat (bitlen q)" by simp
    qed
    finally have "(2::rat) powi (?e0 - 1) \<le> x" using x by simp
    then show ?thesis using False by (simp add: floorLog2_def pq Let_def)
  qed
qed

lemma roundHalfEven_error: "\<bar>of_int (roundHalfEven q) - q\<bar> \<le> 1 / 2"
proof -
  have "of_int \<lfloor>q\<rfloor> \<le> q" "q < of_int \<lfloor>q\<rfloor> + 1" by linarith+
  then show ?thesis by (auto simp: roundHalfEven_def Let_def abs_le_iff)
qed

lemma roundHalfEven_of_int: "roundHalfEven (of_int n) = n"
  by (simp add: roundHalfEven_def)

lemma roundToDouble_error:
  assumes "x \<noteq> 0"
  shows "\<bar>roundToDouble x - x\<bar> \<le> 2 powi (max (floorLog2 \<bar>x\<bar>) (- 1022) - 52) / 2"
proof -
  let ?u = "(2::rat) powi (max (floorLog2 \<bar>x\<bar>) (- 1022) - 52)"
  have u: "0 < ?u" by (rule two_powi_pos)
  have "roundToDouble x - x = ?u * (of_int (roundHalfEven (x / ?u)) - x / ?u)"
    using assms u by (simp add: roundToDouble_def Let_def algebra_simps)
  then have "\<bar>roundToDouble x - x\<bar> = ?u * \<bar>of_int (roundHalfEven (x / ?u)) - x / ?u\<bar>"
    using u by (simp add: abs_mult)
  also have "\<dots> \<le> ?u * (1 / 2)"
    using u roundHalfEven_error [of "x / ?u"] by (intro mult_left_mono) simp_all
  finally show ?thesis by simp
qed


lemma roundToDouble_relative:
  assumes "2 powi (- 1022) \<le> \<bar>x\<bar>"
  shows "\<bar>roundToDouble x - x\<bar> \<le> \<bar>x\<bar> / 2 ^ 53"
proof -
  have pos: "0 < \<bar>x\<bar>" using assms two_powi_pos [of "- 1022"] by linarith
  then have nz: "x \<noteq> 0" by simp
  let ?e = "max (floorLog2 \<bar>x\<bar>) (- 1022)"
  have e: "(2::rat) powi ?e \<le> \<bar>x\<bar>"
    using floorLog2_le [OF pos] assms by (simp add: max_def)
  have "(2::rat) powi (?e - 52) = 2 powi ?e / 2 ^ 52"
    using power_int_diff [of "2::rat" ?e 52] by simp
  then have "(2::rat) powi (?e - 52) / 2 = 2 powi ?e / 2 ^ 53" by simp
  also have "\<dots> \<le> \<bar>x\<bar> / 2 ^ 53" using e by (simp add: divide_right_mono)
  finally show ?thesis using roundToDouble_error [OF nz] by linarith
qed

lemma roundToDouble_of_int:
  assumes "\<bar>n\<bar> \<le> 2 ^ 53"
  shows "roundToDouble (of_int n) = of_int n"
proof (cases "n = 0")
  case True
  then show ?thesis by (simp add: roundToDouble_def)
next
  case False
  let ?x = "of_int n :: rat"
  let ?e = "max (floorLog2 \<bar>?x\<bar>) (- 1022)"
  let ?u = "(2::rat) powi (?e - 52)"
  have pos: "0 < \<bar>?x\<bar>" using False by simp
  have xle: "\<bar>?x\<bar> \<le> 2 ^ 53"
  proof -
    have "(of_int \<bar>n\<bar> :: rat) \<le> of_int (2 ^ 53)" using assms by (simp only: of_int_le_iff)
    then show ?thesis by simp
  qed
  have "(2::rat) powi (floorLog2 \<bar>?x\<bar>) \<le> 2 powi 53"
    using floorLog2_le [OF pos] xle by simp
  then have "floorLog2 \<bar>?x\<bar> \<le> 53"
    by (rule power_int_le_imp_le_exp [rotated]) simp_all
  then have e53: "?e \<le> 53" by simp
  have "\<exists>k::int. ?x / ?u = of_int k"
  proof (cases "?e \<le> 52")
    case True
    have "?u = 2 powi (- (52 - ?e))" by simp
    also have "\<dots> = inverse (2 powi (52 - ?e))" by (rule power_int_minus)
    also have "(2::rat) powi (52 - ?e) = 2 ^ nat (52 - ?e)"
      using True by (simp add: power_int_def)
    finally have "?u = inverse (2 ^ nat (52 - ?e))" .
    then have "?x / ?u = of_int (n * 2 ^ nat (52 - ?e))" by (simp add: divide_inverse)
    then show ?thesis by blast
  next
    case False
    with e53 have e: "?e = 53" by linarith
    then have "floorLog2 \<bar>?x\<bar> = 53" by (simp add: max_def split: if_splits)
    then have "(2::rat) ^ 53 \<le> \<bar>?x\<bar>" using floorLog2_le [OF pos] by simp
    with xle have "\<bar>?x\<bar> = 2 ^ 53" by linarith
    then have "?x = 2 ^ 53 \<or> ?x = - (2 ^ 53)" by (simp add: abs_if split: if_splits)
    moreover have "?u = 2" using e by simp
    ultimately have "?x / ?u = of_int (2 ^ 52) \<or> ?x / ?u = of_int (- (2 ^ 52))" by auto
    then show ?thesis by blast
  qed
  then obtain k :: int where k: "?x / ?u = of_int k" by blast
  have u: "?u \<noteq> 0" using two_powi_pos [of "?e - 52"] by simp
  have "roundToDouble ?x = of_int (roundHalfEven (?x / ?u)) * ?u"
    using False by (simp add: roundToDouble_def Let_def)
  also have "\<dots> = ?x / ?u * ?u" by (simp only: k roundHalfEven_of_int)
  also have "\<dots> = ?x" using u by simp
  finally show ?thesis .
qed


text \<open>One turn of the loop of \<open>columnToLetter\<close>: \<open>col = Math.floor(col / 26) - 1\<close>, a
  rounded quotient, its floor, and a rounded difference.\<close>

definition nextColumn :: "int \<Rightarrow> int" where
  "nextColumn col = \<lfloor>roundToDouble (of_int (\<lfloor>roundToDouble (of_int col / 26)\<rfloor> - 1))\<rfloor>"

lemma between_integers:
  fixes r x k :: rat
  assumes "\<bar>r - x\<bar> \<le> 1 / 32" and "k + 1 / 26 \<le> x" and "x \<le> k + 25 / 26"
  shows "k \<le> r \<and> r < k + 1"
  using assms by (simp only: abs_le_iff) linarith

lemma floor_quotient_exact:
  assumes "0 \<le> col" and "col < 2 ^ 53"
  shows "\<lfloor>roundToDouble (of_int col / 26)\<rfloor> = col div 26"
proof (cases "col mod 26 = 0")
  case True
  then have "col = col div 26 * 26" by presburger
  then have "(of_int col :: rat) = of_int (col div 26) * 26"
    by (metis of_int_mult of_int_numeral)
  then have x: "(of_int col :: rat) / 26 = of_int (col div 26)" by simp
  have "\<bar>col div 26\<bar> \<le> 2 ^ 53" using assms by (simp add: abs_if) presburger
  then show ?thesis by (simp add: x roundToDouble_of_int)
next
  case False
  let ?k = "col div 26"
  let ?x = "of_int col / 26 :: rat"
  have m: "1 \<le> col mod 26" "col mod 26 \<le> 25" using False by presburger+
  have "(of_int col :: rat) = of_int ?k * 26 + of_int (col mod 26)"
    by (metis div_mult_mod_eq of_int_add of_int_mult of_int_numeral)
  then have x: "?x = of_int ?k + of_int (col mod 26) / 26" by (simp add: add_divide_distrib)
  have "(of_int (1::int) :: rat) \<le> of_int (col mod 26)" using m(1) by (simp only: of_int_le_iff)
  moreover have "(of_int (col mod 26) :: rat) \<le> of_int (25::int)"
    using m(2) by (simp only: of_int_le_iff)
  ultimately have lo: "of_int ?k + 1 / 26 \<le> ?x" and hi: "?x \<le> of_int ?k + 25 / 26"
    unfolding x by simp_all
  have k0: "0 \<le> ?k" using assms(1) by (simp add: pos_imp_zdiv_nonneg_iff)
  have "(0::rat) \<le> of_int ?k" using k0 by simp
  then have xpos: "0 < ?x" using lo by linarith
  then have ax: "\<bar>?x\<bar> = ?x" by simp
  have "(of_int col :: rat) < of_int (2 ^ 53)" using assms(2) by (simp only: of_int_less_iff)
  then have xlt: "?x < 2 ^ 49" by simp
  have "(2::rat) powi (floorLog2 ?x) < 2 powi 49"
    using floorLog2_le [OF xpos] xlt by simp
  then have "floorLog2 ?x < 49"
    by (rule power_int_le_imp_less_exp [rotated]) simp_all
  then have e: "max (floorLog2 ?x) (- 1022) - 52 \<le> - 4" by simp
  have "(2::rat) powi (max (floorLog2 ?x) (- 1022) - 52) \<le> 2 powi (- 4)"
    using e by (rule power_int_increasing) simp
  then have u: "(2::rat) powi (max (floorLog2 ?x) (- 1022) - 52) / 2 \<le> 1 / 32"
    by (simp add: power_int_minus)
  have "\<bar>roundToDouble ?x - ?x\<bar> \<le> 1 / 32"
    using roundToDouble_error [of ?x] xpos u by (simp add: ax)
  then have "of_int ?k \<le> roundToDouble ?x \<and> roundToDouble ?x < of_int ?k + 1"
    using lo hi by (rule between_integers)
  then show ?thesis by (simp add: floor_unique)
qed

lemma nextColumn_exact:
  assumes "0 \<le> col" and "col < 2 ^ 53"
  shows "nextColumn col = col div 26 - 1"
proof -
  have "\<bar>col div 26 - 1\<bar> \<le> 2 ^ 53" using assms by (simp add: abs_if) presburger
  then have "roundToDouble (of_int (col div 26 - 1)) = of_int (col div 26 - 1)"
    by (rule roundToDouble_of_int)
  then show ?thesis
    unfolding nextColumn_def floor_quotient_exact [OF assms] by (simp only: floor_of_int)
qed

lemma tiny_le_half: "0 \<le> (x::rat) \<Longrightarrow> x / 2 ^ 53 \<le> x / 2"
  by (rule divide_left_mono) simp_all

lemma twice_rounded_less:
  fixes x y a b r :: rat
  shows "y \<le> x + a - 1 \<Longrightarrow> b \<le> y / 2 \<Longrightarrow> r \<le> y + b \<Longrightarrow> a \<le> x / 2 \<Longrightarrow> 2 \<le> x
         \<Longrightarrow> r < 4 * x"
  by linarith

lemma nextColumn_less:
  assumes "0 \<le> col"
  shows "nextColumn col < col"
proof (cases "col < 2 ^ 53")
  case True
  have "col div 26 - 1 < col" using assms by presburger
  then show ?thesis by (simp add: nextColumn_exact [OF assms True])
next
  case False
  then have big: "2 ^ 53 \<le> col" by simp
  let ?x = "of_int col / 26 :: rat"
  have "(of_int (2 ^ 53) :: rat) \<le> of_int col" using big by (simp only: of_int_le_iff)
  then have c53: "(2::rat) ^ 53 \<le> of_int col" by simp
  then have xbig: "2 \<le> ?x" by simp
  then have ax: "\<bar>?x\<bar> = ?x" by simp
  have xh: "?x / 2 ^ 53 \<le> ?x / 2" using xbig by (intro tiny_le_half) linarith
  have "(2::rat) powi (- 1022) \<le> 1" by (simp add: power_int_minus inverse_le_1_iff)
  then have "2 powi (- 1022) \<le> \<bar>?x\<bar>" using xbig ax by linarith
  then have "\<bar>roundToDouble ?x - ?x\<bar> \<le> \<bar>?x\<bar> / 2 ^ 53"
    by (rule roundToDouble_relative)
  then have "\<bar>roundToDouble ?x - ?x\<bar> \<le> ?x / 2 ^ 53" by (simp only: ax)
  then have r1: "roundToDouble ?x \<le> ?x + ?x / 2 ^ 53" and r1': "?x - ?x / 2 ^ 53 \<le> roundToDouble ?x"
    by (simp_all only: abs_le_iff) linarith+
  let ?k = "\<lfloor>roundToDouble ?x\<rfloor>"
  have kle: "of_int ?k \<le> ?x + ?x / 2 ^ 53" using r1 by linarith
  have "1 \<le> roundToDouble ?x" using r1' xh xbig by linarith
  then have k1: "1 \<le> ?k" by linarith
  let ?m = "?k - 1"
  have m0: "0 \<le> ?m" using k1 by simp
  show ?thesis
  proof (cases "?m = 0")
    case True
    have "nextColumn col = \<lfloor>roundToDouble (of_int ?m)\<rfloor>" by (simp only: nextColumn_def)
    also have "\<dots> = \<lfloor>roundToDouble (of_int 0)\<rfloor>" by (simp only: True)
    also have "\<dots> = 0" by (simp add: roundToDouble_def)
    finally have "nextColumn col = 0" .
    moreover have "(0::int) < 2 ^ 53" by simp
    ultimately show ?thesis using big by linarith
  next
    case False
    then have m1: "1 \<le> ?m" using m0 by linarith
    let ?y = "of_int ?m :: rat"
    have y1: "1 \<le> ?y" using m1 by simp
    then have ay: "\<bar>?y\<bar> = ?y" by simp
    have "(2::rat) powi (- 1022) \<le> 1" by (simp add: power_int_minus inverse_le_1_iff)
    then have "2 powi (- 1022) \<le> \<bar>?y\<bar>" using y1 ay by linarith
    then have "\<bar>roundToDouble ?y - ?y\<bar> \<le> \<bar>?y\<bar> / 2 ^ 53"
      by (rule roundToDouble_relative)
    then have "\<bar>roundToDouble ?y - ?y\<bar> \<le> ?y / 2 ^ 53" by (simp only: ay)
    then have r2: "roundToDouble ?y \<le> ?y + ?y / 2 ^ 53"
      by (simp only: abs_le_iff) linarith
    have yle: "?y \<le> ?x + ?x / 2 ^ 53 - 1" using kle by simp
    have yh: "?y / 2 ^ 53 \<le> ?y / 2" using y1 by (intro tiny_le_half) linarith
    have "roundToDouble ?y < 4 * ?x"
      by (rule twice_rounded_less [OF yle yh r2 xh xbig])
    also have "4 * ?x \<le> of_int col" using xbig by simp
    finally have "roundToDouble ?y < of_int col" .
    then have "\<lfloor>roundToDouble ?y\<rfloor> < col" by (simp add: floor_less_iff)
    then show ?thesis by (simp add: nextColumn_def)
  qed
qed

section \<open>Cell reference utilities (CellUtils)\<close>

text \<open>
  The column index \<open>col\<close> is a finite double whose value is an integer. The loop of
  \<open>columnToLetter\<close> runs while \<open>col >= 0\<close> and ends when the index becomes \<open>-1\<close>; the
  remainder \<open>col % 26\<close> of two doubles is exact, the quotient is rounded.
\<close>

function columnToLetter_loop :: "int \<Rightarrow> string \<Rightarrow> string" where
  "columnToLetter_loop col result =
     (if col \<ge> 0
      then columnToLetter_loop (nextColumn col) (fromCharCode (65 + col mod 26) # result)
      else result)"
  by pat_completeness auto
termination
proof (relation "measure (\<lambda>(col, result). nat (col + 1))")
  show "wf (measure (\<lambda>(col, result). nat (col + 1)))" by simp
next
  fix col :: int and result :: string
  assume "0 \<le> col"
  then have "nextColumn col < col" by (rule nextColumn_less)
  then show "((nextColumn col, fromCharCode (65 + col mod 26) # result), col, result)
               \<in> measure (\<lambda>(col, result). nat (col + 1))"
    using \<open>0 \<le> col\<close> by simp
qed

declare columnToLetter_loop.simps [simp del]

definition columnToLetter :: "int \<Rightarrow> string" where
  "columnToLetter col = columnToLetter_loop col []"

text \<open>
  \<open>letterToColumn\<close> multiplies and adds integers, and each product and each sum is
  rounded to a double; a long label overflows to an infinity, which stays one. A
  \<open>number\<close> is such a value: a finite double that is an integer, or an infinity.
\<close>

datatype number = Finite int | PosInfinity | NegInfinity

definition roundInteger :: "int \<Rightarrow> number" where
  "roundInteger n =
     (let y = roundToDouble (of_int n)
      in if 2 ^ 1024 \<le> y then PosInfinity
         else if y \<le> - (2 ^ 1024) then NegInfinity
         else Finite \<lfloor>y\<rfloor>)"

definition times26 :: "number \<Rightarrow> number" where
  "times26 x = (case x of Finite a \<Rightarrow> roundInteger (a * 26) | _ \<Rightarrow> x)"

definition plusInteger :: "number \<Rightarrow> int \<Rightarrow> number" where
  "plusInteger x d = (case x of Finite a \<Rightarrow> roundInteger (a + d) | _ \<Rightarrow> x)"

fun letterToColumn_loop :: "number \<Rightarrow> string \<Rightarrow> number" where
  "letterToColumn_loop result [] = result"
| "letterToColumn_loop result (ch # rest) =
     letterToColumn_loop (plusInteger (times26 result) (charCode ch - 64)) rest"

definition letterToColumn :: "string \<Rightarrow> number" where
  "letterToColumn letter = plusInteger (letterToColumn_loop (Finite 0) letter) (- 1)"

text \<open>\<open>getCellReference(row, col)\<close>, of \<open>CellUtils\<close> and (with the same loop written out
  again) of \<open>SpreadsheetAnalyzer\<close>, for the non-negative indices of the grid loops.\<close>

definition getCellReference :: "nat \<Rightarrow> nat \<Rightarrow> string" where
  "getCellReference row col = columnToLetter (int col) @ natToString (row + 1)"

section \<open>Spreadsheet snapshots\<close>

text \<open>
  A cell value (\<open>v?: any\<close>) is a JSON scalar. On these values the strict equality
  \<open>===\<close> of JavaScript is equality.
\<close>

datatype jsvalue = JNull | JBool bool | JNum rat | JStr string

record CellType =
  ct_fa :: string
  ct_t :: string

record CellStyle =
  s_bg :: "string option"
  s_fc :: "string option"
  s_ff :: "string option"
  s_fs :: "rat option"
  s_bl :: "rat option"
  s_it :: "rat option"
  s_cl :: "rat option"
  s_ul :: "rat option"
  s_ht :: "rat option"
  s_vt :: "rat option"

text \<open>\<open>CellData\<close>: the fields \<open>v\<close>, \<open>f\<close>, \<open>ct\<close>, \<open>s\<close> and \<open>m\<close> of the source.\<close>

record CellData =
  cell_v :: "jsvalue option"
  cell_f :: "string option"
  cell_ct :: "CellType option"
  cell_s :: "CellStyle option"
  cell_m :: "string option"

text \<open>What a grid position holds: an object, \<open>null\<close> (the spreadsheet widget fills an
  empty grid with \<open>null\<close>) or \<open>undefined\<close>, which is also what a read outside the grid
  gives.\<close>

datatype Cell = CellUndefined | CellNull | CellObj CellData

text \<open>A sheet and a snapshot. The fields \<open>config\<close> and \<open>metadata\<close> are read by none of the
  functions below and are left out.\<close>

record SpreadsheetSheet =
  name :: string
  data :: "Cell list list"

record SpreadsheetData =
  sheets :: "SpreadsheetSheet list"

text \<open>\<open>data[r]?.[c]\<close>: \<open>undefined\<close> when the row or the column is out of range.\<close>

definition cellAt :: "Cell list list \<Rightarrow> nat \<Rightarrow> nat \<Rightarrow> Cell" where
  "cellAt d r c =
     (if r < length d then (if c < length (d ! r) then d ! r ! c else CellUndefined)
      else CellUndefined)"

text \<open>\<open>cell?.v\<close> and \<open>cell?.f\<close>.\<close>

definition cellV :: "Cell \<Rightarrow> jsvalue option" where
  "cellV x = (case x of CellObj d \<Rightarrow> cell_v d | _ \<Rightarrow> None)"

definition cellF :: "Cell \<Rightarrow> string option" where
  "cellF x = (case x of CellObj d \<Rightarrow> cell_f d | _ \<Rightarrow> None)"

text \<open>
  \<open>JSON.stringify(cell)\<close>. The text is \<open>undefined\<close> for \<open>undefined\<close>; for \<open>null\<close> and for
  an object of JSON scalars whose keys stand in the order of the interface, the text
  determines the value, so the text is represented by the value it is the text of.
\<close>

definition json_stringify :: "Cell \<Rightarrow> Cell option" where
  "json_stringify x = (case x of CellUndefined \<Rightarrow> None | _ \<Rightarrow> Some x)"

section \<open>Grid differ (class SpreadsheetAnalyzer)\<close>

record CellChange =
  cell :: string
  oldValue :: "jsvalue option"
  newValue :: "jsvalue option"
  ch_formula :: "string option"

record Comparison =
  changedCells :: "CellChange list"
  addedFormulas :: "string list"
  accuracy :: rat
  efficiency :: int

text \<open>The body of the two inner loops of \<open>compareSpreadsheets\<close> at one position; the
  accumulator is the pair of the arrays \<open>changedCells\<close> and \<open>addedFormulas\<close>.\<close>

definition compareCell ::
  "Cell list list \<Rightarrow> Cell list list \<Rightarrow> nat \<Rightarrow> nat \<Rightarrow>
   CellChange list \<times> string list \<Rightarrow> CellChange list \<times> string list" where
  "compareCell idata fdata r c acc =
     (let initialCell = cellAt idata r c; finalCell = cellAt fdata r c
      in if json_stringify initialCell \<noteq> json_stringify finalCell
         then (fst acc @ [\<lparr>cell = getCellReference r c, oldValue = cellV initialCell,
                           newValue = cellV finalCell, ch_formula = cellF finalCell\<rparr>],
               (case cellF finalCell of
                  Some fm \<Rightarrow> if fm \<noteq> [] then snd acc @ [fm] else snd acc
                | None \<Rightarrow> snd acc))
         else acc)"

text \<open>\<open>data[0]?.length || 0\<close>.\<close>

definition firstRowLength :: "Cell list list \<Rightarrow> nat" where
  "firstRowLength d = (case d of [] \<Rightarrow> 0 | row # _ \<Rightarrow> length row)"

definition compareSheet ::
  "SpreadsheetSheet \<Rightarrow> SpreadsheetSheet \<Rightarrow>
   CellChange list \<times> string list \<Rightarrow> CellChange list \<times> string list" where
  "compareSheet initialSheet finalSheet acc =
     (let maxRows = max (length (data initialSheet)) (length (data finalSheet));
          maxCols = max (firstRowLength (data initialSheet)) (firstRowLength (data finalSheet))
      in fold (\<lambda>r. fold (\<lambda>c. compareCell (data initialSheet) (data finalSheet) r c)
                       [0..<maxCols])
           [0..<maxRows] acc)"

definition compareSheets ::
  "SpreadsheetData \<Rightarrow> SpreadsheetData \<Rightarrow> CellChange list \<times> string list" where
  "compareSheets initial final =
     fold (\<lambda>sheetIndex acc.
             if sheetIndex < length (sheets initial) \<and> sheetIndex < length (sheets final)
             then compareSheet (sheets initial ! sheetIndex) (sheets final ! sheetIndex) acc
             else acc)
       [0..<max (length (sheets initial)) (length (sheets final))] ([], [])"

text \<open>\<open>calculateAccuracy\<close>: the accumulator is the pair of the counters \<open>totalCells\<close> and
  \<open>correctCells\<close>. A sheet of \<open>expected\<close> with no sheet of \<open>actual\<close> at its index is
  skipped (\<open>if (!actualSheet) continue\<close>).\<close>

definition accuracyCell ::
  "Cell list list \<Rightarrow> nat \<Rightarrow> nat \<Rightarrow> Cell \<Rightarrow> nat \<times> nat \<Rightarrow> nat \<times> nat" where
  "accuracyCell adata r c expectedCell acc =
     (case expectedCell of
        CellObj e \<Rightarrow>
          (case cell_v e of
             Some ev \<Rightarrow>
               (fst acc + 1,
                (case cellAt adata r c of
                   CellObj a \<Rightarrow> if cell_v a = Some ev then snd acc + 1 else snd acc
                 | _ \<Rightarrow> snd acc))
           | None \<Rightarrow> acc)
      | _ \<Rightarrow> acc)"

definition accuracySheet ::
  "Cell list list \<Rightarrow> Cell list list \<Rightarrow> nat \<times> nat \<Rightarrow> nat \<times> nat" where
  "accuracySheet adata edata acc =
     fold (\<lambda>r. fold (\<lambda>c. accuracyCell adata r c (edata ! r ! c)) [0..<length (edata ! r)])
       [0..<length edata] acc"

definition accuracyCounts :: "SpreadsheetData \<Rightarrow> SpreadsheetData \<Rightarrow> nat \<times> nat" where
  "accuracyCounts actual expected =
     fold (\<lambda>sheetIndex acc.
             if sheetIndex < length (sheets actual)
             then accuracySheet (data (sheets actual ! sheetIndex))
                    (data (sheets expected ! sheetIndex)) acc
             else acc)
       [0..<length (sheets expected)] (0, 0)"

definition calculateAccuracy :: "SpreadsheetData \<Rightarrow> SpreadsheetData \<Rightarrow> rat" where
  "calculateAccuracy actual expected =
     (let totalCells = fst (accuracyCounts actual expected);
          correctCells = snd (accuracyCounts actual expected)
      in if totalCells > 0 then (of_nat correctCells / of_nat totalCells) * 100 else 0)"

definition calculateEfficiency :: "CellChange list \<Rightarrow> string list \<Rightarrow> int" where
  "calculateEfficiency changed formulas =
     (let score0 = 100;
          score1 = (if length changed > 10
                    then score0 - (int (length changed) - 10) * 2 else score0);
          efficientFunctions = [''SUMPRODUCT'', ''INDEX'', ''MATCH'', ''VLOOKUP''];
          usedEfficientFunctions =
            list_ex (\<lambda>fm. list_ex (\<lambda>func. includes_str fm func) efficientFunctions) formulas;
          score2 = (if usedEfficientFunctions then score1 + 10 else score1)
      in max 0 (min 100 score2))"

definition compareSpreadsheets ::
  "SpreadsheetData \<Rightarrow> SpreadsheetData \<Rightarrow> SpreadsheetData option \<Rightarrow> Comparison" where
  "compareSpreadsheets initial final expected =
     (let res = compareSheets initial final
      in (case expected of
            Some e \<Rightarrow>
              \<lparr>changedCells = fst res, addedFormulas = snd res,
               accuracy = calculateAccuracy final e,
               efficiency = calculateEfficiency (fst res) (snd res)\<rparr>
          | None \<Rightarrow>
              \<lparr>changedCells = fst res, addedFormulas = snd res, accuracy = 0,
               efficiency = 0\<rparr>))"

text \<open>Whether the serialised cells of the two grids differ at a position, and the change
  that \<open>compareSpreadsheets\<close> records there if they do.\<close>

definition cellDiffers :: "Cell list list \<Rightarrow> Cell list list \<Rightarrow> nat \<Rightarrow> nat \<Rightarrow> bool" where
  "cellDiffers idata fdata r c =
     (json_stringify (cellAt idata r c) \<noteq> json_stringify (cellAt fdata r c))"

definition changeAt :: "Cell list list \<Rightarrow> Cell list list \<Rightarrow> nat \<Rightarrow> nat \<Rightarrow> CellChange" where
  "changeAt idata fdata r c =
     \<lparr>cell = getCellReference r c, oldValue = cellV (cellAt idata r c),
      newValue = cellV (cellAt fdata r c), ch_formula = cellF (cellAt fdata r c)\<rparr>"

text \<open>
  The reading of the specification of the accuracy. A position is a sheet index, a row
  and a column. \<open>expectedCells\<close> are the positions of the grids of \<open>expected\<close>;
  a graded cell is a cell of \<open>expected\<close> with a defined value; it is correct when the
  cell of \<open>final\<close> at its position has the same value. \<open>snapshotCell\<close> reads a snapshot
  at a position, with \<open>undefined\<close> where the snapshot has no sheet or no cell there.
\<close>

definition snapshotCell :: "SpreadsheetData \<Rightarrow> nat \<times> nat \<times> nat \<Rightarrow> Cell" where
  "snapshotCell d p =
     (case p of (i, r, c) \<Rightarrow>
        if i < length (sheets d) then cellAt (data (sheets d ! i)) r c else CellUndefined)"

definition gradedCells :: "SpreadsheetData \<Rightarrow> (nat \<times> nat \<times> nat) set" where
  "gradedCells expected =
     {(i, r, c). i < length (sheets expected)
        \<and> r < length (data (sheets expected ! i))
        \<and> c < length (data (sheets expected ! i) ! r)
        \<and> cellV (data (sheets expected ! i) ! r ! c) \<noteq> None}"

definition correctCells :: "SpreadsheetData \<Rightarrow> SpreadsheetData \<Rightarrow> (nat \<times> nat \<times> nat) set" where
  "correctCells final expected =
     {p \<in> gradedCells expected. cellV (snapshotCell final p) = cellV (snapshotCell expected p)}"

definition specAccuracy :: "SpreadsheetData \<Rightarrow> SpreadsheetData \<Rightarrow> rat" where
  "specAccuracy final expected =
     (if card (gradedCells expected) = 0 then 0
      else 100 * of_nat (card (correctCells final expected))
             / of_nat (card (gradedCells expected)))"

text \<open>The graded cells the code counts: those in a sheet of \<open>expected\<close> whose index is
  also the index of a sheet of \<open>final\<close>.\<close>

definition gradedCellsIn :: "SpreadsheetData \<Rightarrow> SpreadsheetData \<Rightarrow> (nat \<times> nat \<times> nat) set" where
  "gradedCellsIn final expected =
     {p \<in> gradedCells expected. fst p < length (sheets final)}"

definition correctCellsIn :: "SpreadsheetData \<Rightarrow> SpreadsheetData \<Rightarrow> (nat \<times> nat \<times> nat) set" where
  "correctCellsIn final expected =
     {p \<in> gradedCellsIn final expected.
        cellV (snapshotCell final p) = cellV (snapshotCell expected p)}"

section \<open>Action tracker (class ActionTracker)\<close>

datatype ActionType =
    cell_edit | formula_input | format_change | insert_row | insert_column
  | delete_row | delete_column | merge_cells | unmerge_cells | create_chart
  | modify_chart | sort_data | filter_data | pivot_table | copy_action | paste_action
  | cut_action | undo_action | redo_action

text \<open>\<open>UserAction\<close>. The field \<open>type\<close> of the source is \<open>action_type\<close> and its \<open>range\<close> is
  \<open>action_range\<close>; \<open>timestamp\<close> is in milliseconds since the epoch.\<close>

record UserAction =
  timestamp :: int
  action_type :: ActionType
  cell_reference :: "string option"
  old_value :: "jsvalue option"
  new_value :: "jsvalue option"
  formula :: "string option"
  action_range :: "string option"
  action_data :: "jsvalue option"

record ActionTracker =
  actions :: "UserAction list"

record EfficiencyMetrics =
  totalActions :: int
  formulaActions :: int
  editActions :: int
  averageTimeBetweenActions :: rat

definition newActionTracker :: ActionTracker where
  "newActionTracker = \<lparr>actions = []\<rparr>"

definition addAction :: "UserAction \<Rightarrow> ActionTracker \<Rightarrow> ActionTracker" where
  "addAction action tr = tr\<lparr>actions := actions tr @ [action]\<rparr>"

definition getActions :: "ActionTracker \<Rightarrow> UserAction list" where
  "getActions tr = actions tr"

definition getActionsByType :: "ActionType \<Rightarrow> ActionTracker \<Rightarrow> UserAction list" where
  "getActionsByType ty tr = filter (\<lambda>action. action_type action = ty) (actions tr)"

text \<open>\<open>arr.indexOf(x)\<close>, and the filter \<open>arr.indexOf(x) === index\<close> that keeps the first
  occurrence of every element.\<close>

fun indexOf :: "'a list \<Rightarrow> 'a \<Rightarrow> int" where
  "indexOf [] x = - 1"
| "indexOf (y # ys) x =
     (if y = x then 0 else (let i = indexOf ys x in if i < 0 then - 1 else i + 1))"

definition firstOccurrences :: "'a list \<Rightarrow> 'a list" where
  "firstOccurrences arr =
     map (\<lambda>i. arr ! i) (filter (\<lambda>i. indexOf arr (arr ! i) = int i) [0..<length arr])"

text \<open>\<open>action.type === 'formula_input' && action.formula\<close>: the formula is present and
  is not the empty string.\<close>

definition isFormulaInput :: "UserAction \<Rightarrow> bool" where
  "isFormulaInput action =
     (action_type action = formula_input
      \<and> (case formula action of Some fm \<Rightarrow> fm \<noteq> [] | None \<Rightarrow> False))"

definition getFormulasUsed :: "ActionTracker \<Rightarrow> string list" where
  "getFormulasUsed tr =
     firstOccurrences (map (\<lambda>action. the (formula action)) (filter isFormulaInput (actions tr)))"

text \<open>\<open>Array.from(new Set(functions))\<close>: a set keeps its elements in the order of their
  first insertion.\<close>

definition setInsert :: "'a list \<Rightarrow> 'a \<Rightarrow> 'a list" where
  "setInsert acc x = (if x \<in> set acc then acc else acc @ [x])"

definition getFunctionsUsed :: "ActionTracker \<Rightarrow> string list" where
  "getFunctionsUsed tr =
     foldl setInsert []
       (concat (map (\<lambda>fm. functions_list (parseFormula fm)) (getFormulasUsed tr)))"

definition getTimeSpent :: "ActionTracker \<Rightarrow> int" where
  "getTimeSpent tr =
     (if actions tr = [] then 0
      else timestamp (last (actions tr)) - timestamp (hd (actions tr)))"

definition getEfficiencyMetrics :: "ActionTracker \<Rightarrow> EfficiencyMetrics" where
  "getEfficiencyMetrics tr =
     \<lparr>totalActions = int (length (actions tr)),
      formulaActions = int (length (getActionsByType formula_input tr)),
      editActions = int (length (getActionsByType cell_edit tr)),
      averageTimeBetweenActions =
        (if length (actions tr) > 1
         then of_int (getTimeSpent tr) / of_int (int (length (actions tr)) - 1)
         else 0)\<rparr>"

definition clear :: "ActionTracker \<Rightarrow> ActionTracker" where
  "clear tr = tr\<lparr>actions := []\<rparr>"

text \<open>The public interface as data: a call of a public method, what it returns, and the
  tracker after it.\<close>

datatype TrackerCall =
    AddAction UserAction | GetActions | GetActionsByType ActionType | GetFormulasUsed
  | GetFunctionsUsed | GetTimeSpent | GetEfficiencyMetrics | Clear

datatype TrackerResult =
    Void | Actions "UserAction list" | Strings "string list" | Number int
  | Metrics EfficiencyMetrics

fun trackerCall :: "TrackerCall \<Rightarrow> ActionTracker \<Rightarrow> TrackerResult \<times> ActionTracker" where
  "trackerCall (AddAction action) tr = (Void, addAction action tr)"
| "trackerCall GetActions tr = (Actions (getActions tr), tr)"
| "trackerCall (GetActionsByType ty) tr = (Actions (getActionsByType ty tr), tr)"
| "trackerCall GetFormulasUsed tr = (Strings (getFormulasUsed tr), tr)"
| "trackerCall GetFunctionsUsed tr = (Strings (getFunctionsUsed tr), tr)"
| "trackerCall GetTimeSpent tr = (Number (getTimeSpent tr), tr)"
| "trackerCall GetEfficiencyMetrics tr = (Metrics (getEfficiencyMetrics tr), tr)"
| "trackerCall Clear tr = (Void, clear tr)"

fun trackerCalls :: "TrackerCall list \<Rightarrow> ActionTracker \<Rightarrow> ActionTracker" where
  "trackerCalls [] tr = tr"
| "trackerCalls (call # calls) tr = trackerCalls calls (snd (trackerCall call tr))"

text \<open>The actions a sequence of calls adds, in the order of the calls.\<close>

fun addedActions :: "TrackerCall list \<Rightarrow> UserAction list" where
  "addedActions [] = []"
| "addedActions (AddAction action # calls) = action # addedActions calls"
| "addedActions (call # calls) = addedActions calls"

section \<open>Task evaluator (class TaskEvaluator)\<close>

record ChartRequirement =
  chart_type :: string
  data_range :: string
  required :: bool

text \<open>\<open>TaskEvaluationCriteria\<close>. The two lists of formulas are optional here because the
  code guards each with \<open>|| []\<close>.\<close>

record TaskEvaluationCriteria =
  formula_accuracy_weight :: rat
  efficiency_weight :: rat
  presentation_weight :: rat
  best_practices_weight :: rat
  required_formulas :: "string list option"
  optional_formulas :: "string list option"
  expected_charts :: "ChartRequirement list option"

definition orEmpty :: "'a list option \<Rightarrow> 'a list" where
  "orEmpty xs = (case xs of Some ys \<Rightarrow> ys | None \<Rightarrow> [])"

definition calculateBestPracticesScore ::
  "ActionTracker \<Rightarrow> TaskEvaluationCriteria \<Rightarrow> int" where
  "calculateBestPracticesScore tracker criteria =
     (let score0 = 100;
          fns = getFunctionsUsed tracker;
          requiredFunctions = orEmpty (required_formulas criteria);
          missingRequired = filter (\<lambda>func. func \<notin> set fns) requiredFunctions;
          score1 = score0 - int (length missingRequired) * 20;
          optionalFunctions = orEmpty (optional_formulas criteria);
          usedOptional = filter (\<lambda>func. func \<in> set fns) optionalFunctions;
          score2 = score1 + int (length usedOptional) * 10;
          metrics = getEfficiencyMetrics tracker;
          score3 = (if averageTimeBetweenActions metrics < 1000 then score2 - 10 else score2)
      in max 0 (min 100 score3))"

section \<open>Session state machine (class ExcelInterviewStateManagerImpl)\<close>

datatype ExcelInterviewState =
  introduction | conceptual_questions | practical_tasks | feedback_generation | conclusion

text \<open>
  The optional argument \<open>data\<close> of \<open>transition_to\<close> has type \<open>any\<close>. The code reads its
  \<open>trigger\<close> and spreads all of it over \<open>state_data\<close>, so it is modelled by the fields it
  can set there: \<open>trigger\<close> and the fields of \<open>StateData\<close>, each one present or absent.
\<close>

record TransitionData =
  td_trigger :: "string option"
  td_current_question_index :: "int option"
  td_current_task_index :: "int option"
  td_questions_completed :: "int option"
  td_tasks_completed :: "int option"
  td_total_questions :: "int option"
  td_total_tasks :: "int option"
  td_feedback_generated :: "bool option"

text \<open>\<open>StateData\<close>, with the property \<open>trigger\<close> that the spread of a transition's data
  adds to the object.\<close>

record StateData =
  sd_current_question_index :: "int option"
  sd_current_task_index :: "int option"
  sd_questions_completed :: int
  sd_tasks_completed :: int
  sd_total_questions :: int
  sd_total_tasks :: int
  sd_feedback_generated :: "bool option"
  sd_trigger :: "string option"

record ConceptualProgress =
  cp_questions_answered :: int
  cp_correct_answers :: int
  cp_total_score :: rat
  cp_category_scores :: "(string \<times> rat) list"
  cp_time_spent :: rat

record PracticalProgress =
  pp_tasks_completed :: int
  pp_total_accuracy_score :: rat
  pp_total_efficiency_score :: rat
  pp_total_best_practices_score :: rat
  pp_time_spent :: rat
  pp_functions_demonstrated :: "string list"

record StateTransition =
  from_state :: ExcelInterviewState
  to_state :: ExcelInterviewState
  transition_timestamp :: int
  trigger :: string
  transition_data :: "TransitionData option"

record ExcelInterviewSession =
  session_id :: int
  response_id :: int
  current_state :: ExcelInterviewState
  state_data :: StateData
  conceptual_progress :: ConceptualProgress
  practical_progress :: PracticalProgress
  start_time :: int
  end_time :: "int option"
  total_duration :: "int option"
  state_history :: "StateTransition list"

record CompletionCriteria =
  conceptual_questions_completed :: bool
  practical_tasks_completed :: bool
  minimum_score_achieved :: bool
  time_limit_respected :: bool

text \<open>
  The manager: the session it owns and its completion criteria. The lists of state
  callbacks are created empty and only \<open>addStateCallback\<close> adds to them; in a manager
  that has had no callback registered \<open>executeStateCallbacks\<close> runs nothing, and that is
  the manager modelled here.
\<close>

record StateManager =
  session :: ExcelInterviewSession
  completionCriteria :: CompletionCriteria

definition initializeCompletionCriteria :: CompletionCriteria where
  "initializeCompletionCriteria =
     \<lparr>conceptual_questions_completed = False, practical_tasks_completed = False,
      minimum_score_achieved = False, time_limit_respected = True\<rparr>"

definition getValidTransitions :: "ExcelInterviewState \<Rightarrow> ExcelInterviewState list" where
  "getValidTransitions from_st =
     (case from_st of
        introduction \<Rightarrow> [conceptual_questions]
      | conceptual_questions \<Rightarrow> [practical_tasks]
      | practical_tasks \<Rightarrow> [feedback_generation]
      | feedback_generation \<Rightarrow> [conclusion]
      | conclusion \<Rightarrow> [])"

definition can_transition :: "ExcelInterviewState \<Rightarrow> StateManager \<Rightarrow> bool" where
  "can_transition to_st mgr =
     (to_st \<in> set (getValidTransitions (current_state (session mgr))))"

text \<open>\<open>{ ...state_data, ...data }\<close>: a field that \<open>data\<close> has replaces the one of
  \<open>state_data\<close>.\<close>

definition mergeStateData :: "StateData \<Rightarrow> TransitionData \<Rightarrow> StateData" where
  "mergeStateData sd d =
     \<lparr>sd_current_question_index =
        (case td_current_question_index d of Some x \<Rightarrow> Some x
         | None \<Rightarrow> sd_current_question_index sd),
      sd_current_task_index =
        (case td_current_task_index d of Some x \<Rightarrow> Some x | None \<Rightarrow> sd_current_task_index sd),
      sd_questions_completed =
        (case td_questions_completed d of Some x \<Rightarrow> x | None \<Rightarrow> sd_questions_completed sd),
      sd_tasks_completed =
        (case td_tasks_completed d of Some x \<Rightarrow> x | None \<Rightarrow> sd_tasks_completed sd),
      sd_total_questions =
        (case td_total_questions d of Some x \<Rightarrow> x | None \<Rightarrow> sd_total_questions sd),
      sd_total_tasks =
        (case td_total_tasks d of Some x \<Rightarrow> x | None \<Rightarrow> sd_total_tasks sd),
      sd_feedback_generated =
        (case td_feedback_generated d of Some x \<Rightarrow> Some x | None \<Rightarrow> sd_feedback_generated sd),
      sd_trigger = (case td_trigger d of Some x \<Rightarrow> Some x | None \<Rightarrow> sd_trigger sd)\<rparr>"

definition updateStateData ::
  "ExcelInterviewState \<Rightarrow> TransitionData option \<Rightarrow> int \<Rightarrow>
   ExcelInterviewSession \<Rightarrow> ExcelInterviewSession" where
  "updateStateData new_state d now s =
     (let s1 =
        (case new_state of
           conceptual_questions \<Rightarrow>
             s\<lparr>state_data := (state_data s)\<lparr>sd_current_question_index := Some 0,
                                               sd_questions_completed := 0\<rparr>\<rparr>
         | practical_tasks \<Rightarrow>
             s\<lparr>state_data := (state_data s)\<lparr>sd_current_task_index := Some 0,
                                               sd_tasks_completed := 0\<rparr>\<rparr>
         | conclusion \<Rightarrow>
             s\<lparr>end_time := Some now, total_duration := Some (now - start_time s)\<rparr>
         | _ \<Rightarrow> s)
      in (case d of
            Some dd \<Rightarrow> s1\<lparr>state_data := mergeStateData (state_data s1) dd\<rparr>
          | None \<Rightarrow> s1))"

text \<open>\<open>data?.trigger || 'automatic'\<close>.\<close>

definition triggerOf :: "TransitionData option \<Rightarrow> string" where
  "triggerOf d =
     (case d of
        Some dd \<Rightarrow>
          (case td_trigger dd of
             Some t \<Rightarrow> if t \<noteq> [] then t else ''automatic''
           | None \<Rightarrow> ''automatic'')
      | None \<Rightarrow> ''automatic'')"

text \<open>
  \<open>transition_to\<close>: the boolean it resolves to and the manager after the call. With no
  callback to run, nothing inside the \<open>try\<close> block throws and the \<open>catch\<close> branch is not
  taken.
\<close>

definition transition_to ::
  "ExcelInterviewState \<Rightarrow> TransitionData option \<Rightarrow> int \<Rightarrow> StateManager \<Rightarrow>
   bool \<times> StateManager" where
  "transition_to new_state d now mgr =
     (let currentState = current_state (session mgr)
      in if \<not> can_transition new_state mgr then (False, mgr)
         else
           let transition =
                 \<lparr>from_state = currentState, to_state = new_state,
                  transition_timestamp = now, trigger = triggerOf d, transition_data = d\<rparr>;
               s1 = (session mgr)\<lparr>current_state := new_state,
                       state_history := state_history (session mgr) @ [transition]\<rparr>;
               s2 = updateStateData new_state d now s1
           in (True, mgr\<lparr>session := s2\<rparr>))"

definition isIntroductionComplete :: "int \<Rightarrow> StateManager \<Rightarrow> bool" where
  "isIntroductionComplete now mgr = (now - start_time (session mgr) \<ge> 30 * 1000)"

definition isConceptualQuestionsComplete :: "StateManager \<Rightarrow> bool" where
  "isConceptualQuestionsComplete mgr =
     (let completed = sd_questions_completed (state_data (session mgr));
          total = sd_total_questions (state_data (session mgr))
      in completed \<ge> total \<and> total > 0)"

definition isPracticalTasksComplete :: "StateManager \<Rightarrow> bool" where
  "isPracticalTasksComplete mgr =
     (let completed = sd_tasks_completed (state_data (session mgr));
          total = sd_total_tasks (state_data (session mgr))
      in completed \<ge> total \<and> total > 0)"

definition isFeedbackGenerationComplete :: "StateManager \<Rightarrow> bool" where
  "isFeedbackGenerationComplete mgr =
     (sd_feedback_generated (state_data (session mgr)) = Some True)"

definition isCurrentStateComplete :: "int \<Rightarrow> StateManager \<Rightarrow> bool" where
  "isCurrentStateComplete now mgr =
     (case current_state (session mgr) of
        introduction \<Rightarrow> isIntroductionComplete now mgr
      | conceptual_questions \<Rightarrow> isConceptualQuestionsComplete mgr
      | practical_tasks \<Rightarrow> isPracticalTasksComplete mgr
      | feedback_generation \<Rightarrow> isFeedbackGenerationComplete mgr
      | conclusion \<Rightarrow> True)"

definition stateFlow :: "ExcelInterviewState list" where
  "stateFlow =
     [introduction, conceptual_questions, practical_tasks, feedback_generation, conclusion]"

definition getNextState :: "StateManager \<Rightarrow> ExcelInterviewState option" where
  "getNextState mgr =
     (let currentIndex = indexOf stateFlow (current_state (session mgr))
      in if currentIndex < int (length stateFlow) - 1
         then Some (stateFlow ! nat (currentIndex + 1)) else None)"

definition autoProgressData :: TransitionData where
  "autoProgressData =
     \<lparr>td_trigger = Some ''auto_progress'', td_current_question_index = None,
      td_current_task_index = None, td_questions_completed = None,
      td_tasks_completed = None, td_total_questions = None, td_total_tasks = None,
      td_feedback_generated = None\<rparr>"

definition autoProgress :: "int \<Rightarrow> StateManager \<Rightarrow> bool \<times> StateManager" where
  "autoProgress now mgr =
     (if \<not> isCurrentStateComplete now mgr then (False, mgr)
      else (case getNextState mgr of
              None \<Rightarrow> (False, mgr)
            | Some nextState \<Rightarrow> transition_to nextState (Some autoProgressData) now mgr))"

text \<open>The factory; \<open>now\<close> is the time of creation, the session's \<open>start_time\<close>.\<close>

definition createExcelInterviewStateManager ::
  "int \<Rightarrow> int \<Rightarrow> int \<Rightarrow> int \<Rightarrow> StateManager" where
  "createExcelInterviewStateManager responseId totalQuestions totalTasks now =
     \<lparr>session =
        \<lparr>session_id = 0, response_id = responseId, current_state = introduction,
         state_data =
           \<lparr>sd_current_question_index = Some 0, sd_current_task_index = Some 0,
            sd_questions_completed = 0, sd_tasks_completed = 0,
            sd_total_questions = totalQuestions, sd_total_tasks = totalTasks,
            sd_feedback_generated = None, sd_trigger = None\<rparr>,
         conceptual_progress =
           \<lparr>cp_questions_answered = 0, cp_correct_answers = 0, cp_total_score = 0,
            cp_category_scores = [], cp_time_spent = 0\<rparr>,
         practical_progress =
           \<lparr>pp_tasks_completed = 0, pp_total_accuracy_score = 0,
            pp_total_efficiency_score = 0, pp_total_best_practices_score = 0,
            pp_time_spent = 0, pp_functions_demonstrated = []\<rparr>,
         start_time = now, end_time = None, total_duration = None, state_history = []\<rparr>,
      completionCriteria = initializeCompletionCriteria\<rparr>"

text \<open>A call of \<open>transition_to\<close> or of \<open>autoProgress\<close>, paired with the time at which it
  runs, and a sequence of such calls.\<close>

datatype ManagerCall = TransitionTo ExcelInterviewState "TransitionData option" | AutoProgress

fun managerCall :: "int \<times> ManagerCall \<Rightarrow> StateManager \<Rightarrow> bool \<times> StateManager" where
  "managerCall (now, TransitionTo new_state d) mgr = transition_to new_state d now mgr"
| "managerCall (now, AutoProgress) mgr = autoProgress now mgr"

fun managerCalls :: "(int \<times> ManagerCall) list \<Rightarrow> StateManager \<Rightarrow> StateManager" where
  "managerCalls [] mgr = mgr"
| "managerCalls (call # calls) mgr = managerCalls calls (snd (managerCall call mgr))"

text \<open>The invariant of the history: the session has made \<open>n\<close> transitions, it stands in
  the \<open>n\<close>-th state of the flow, and the transitions recorded lead from each state of the
  flow to the next.\<close>

definition linearHistory :: "StateManager \<Rightarrow> bool" where
  "linearHistory mgr =
     (let h = state_history (session mgr)
      in length h < length stateFlow
         \<and> current_state (session mgr) = stateFlow ! length h
         \<and> map from_state h = take (length h) stateFlow
         \<and> map to_state h = take (length h) (tl stateFlow))"

section \<open>Skill level recommendation (ExcelSkillConfigService.getRecommendedLevel)\<close>

datatype ExcelSkillLevel = basic | intermediate | advanced

text \<open>A stored skill configuration, with the fields the functions below can read. The
  store itself (a database table) is outside the program: what \<open>getAllConfigs\<close> reads
  from it is a parameter, and a failed read is the empty list.\<close>

record ExcelSkillConfig =
  config_id :: int
  skill_level :: ExcelSkillLevel
  conceptual_topics :: "string list"
  practical_skills :: "string list"
  function_requirements :: "string list"
  complexity_level :: int

definition advancedFunctionNames :: "string list" where
  "advancedFunctionNames =
     [''VLOOKUP'', ''INDEX'', ''MATCH'', ''INDIRECT'', ''OFFSET'', ''SUMPRODUCT'']"

definition getRecommendedLevel ::
  "ExcelSkillConfig list \<Rightarrow> ExcelSkillLevel \<Rightarrow> rat \<Rightarrow> string list \<Rightarrow> ExcelSkillLevel" where
  "getRecommendedLevel configs currentLevel performanceScore functionsUsed =
     (case find (\<lambda>c. skill_level c = currentLevel) configs of
        None \<Rightarrow> currentLevel
      | Some currentConfig \<Rightarrow>
          let advancedFunctions =
                filter (\<lambda>func. func \<in> set advancedFunctionNames) functionsUsed
          in if performanceScore > 85 \<and> currentLevel = basic \<and> length advancedFunctions > 0
             then intermediate
             else if performanceScore > 85 \<and> currentLevel = intermediate
                     \<and> length advancedFunctions > 2
             then advanced
             else if performanceScore < 60 \<and> currentLevel = advanced then intermediate
             else if performanceScore < 60 \<and> currentLevel = intermediate then basic
             else currentLevel)"

text \<open>The table of readiness thresholds (\<open>ExcelAnalyticsService.getReadinessThreshold\<close>).\<close>

definition getReadinessThreshold :: "ExcelSkillLevel \<Rightarrow> rat" where
  "getReadinessThreshold skillLevel =
     (case skillLevel of basic \<Rightarrow> 75 | intermediate \<Rightarrow> 80 | advanced \<Rightarrow> 85)"

text \<open>The reading of the specification: the position of a level, the level after it (the
  last level has none and holds), and the recommendation by the threshold table.\<close>

definition levelRank :: "ExcelSkillLevel \<Rightarrow> int" where
  "levelRank l = (case l of basic \<Rightarrow> 0 | intermediate \<Rightarrow> 1 | advanced \<Rightarrow> 2)"

definition nextLevel :: "ExcelSkillLevel \<Rightarrow> ExcelSkillLevel" where
  "nextLevel l = (case l of basic \<Rightarrow> intermediate | intermediate \<Rightarrow> advanced | advanced \<Rightarrow> advanced)"

definition thresholdRecommendation :: "ExcelSkillLevel \<Rightarrow> rat \<Rightarrow> ExcelSkillLevel" where
  "thresholdRecommendation currentLevel overallScore =
     (if overallScore \<ge> getReadinessThreshold currentLevel then nextLevel currentLevel
      else currentLevel)"

section \<open>Example data\<close>

text \<open>A formula entered at time 0 and an edit five seconds later; a rubric that requires
  \<open>VLOOKUP\<close> and rewards \<open>SUM\<close>, and one that requires \<open>VLOOKUP\<close> and rewards
  \<open>AVERAGE\<close>.\<close>

definition sumAction :: UserAction where
  "sumAction = \<lparr>timestamp = 0, action_type = formula_input, cell_reference = Some ''C2'',
     old_value = None, new_value = Some (JStr ''=SUM(B2:B5)''), formula = Some ''=SUM(B2:B5)'',
     action_range = None, action_data = None\<rparr>"

definition editAction :: UserAction where
  "editAction = \<lparr>timestamp = 5000, action_type = cell_edit, cell_reference = Some ''D2'',
     old_value = None, new_value = Some (JNum 7), formula = None,
     action_range = None, action_data = None\<rparr>"

definition vlookupRubric :: TaskEvaluationCriteria where
  "vlookupRubric = \<lparr>formula_accuracy_weight = 40, efficiency_weight = 30,
     presentation_weight = 15, best_practices_weight = 15,
     required_formulas = Some [''VLOOKUP''], optional_formulas = Some [''SUM''],
     expected_charts = None\<rparr>"

definition averageRubric :: TaskEvaluationCriteria where
  "averageRubric = \<lparr>formula_accuracy_weight = 40, efficiency_weight = 30,
     presentation_weight = 15, best_practices_weight = 15,
     required_formulas = Some [''VLOOKUP''], optional_formulas = Some [''AVERAGE''],
     expected_charts = None\<rparr>"


text \<open>Snapshots: an expected workbook of two sheets and a final workbook that has only the
  first of them; and the mock sheet of the test utilities after the candidate typed a
  value into \<open>B2\<close>, which the simple spreadsheet widget stores by lengthening that row
  alone.\<close>

definition valueCell :: "jsvalue \<Rightarrow> Cell" where
  "valueCell x = CellObj \<lparr>cell_v = Some x, cell_f = None, cell_ct = None, cell_s = None,
     cell_m = None\<rparr>"

definition expectedTwoSheets :: SpreadsheetData where
  "expectedTwoSheets = \<lparr>sheets = [\<lparr>name = ''Data'', data = [[valueCell (JNum 1)]]\<rparr>,
                                  \<lparr>name = ''Summary'', data = [[valueCell (JNum 2)]]\<rparr>]\<rparr>"

definition finalOneSheet :: SpreadsheetData where
  "finalOneSheet = \<lparr>sheets = [\<lparr>name = ''Data'', data = [[valueCell (JNum 1)]]\<rparr>]\<rparr>"

definition initialJagged :: SpreadsheetData where
  "initialJagged = \<lparr>sheets = [\<lparr>name = ''Test Sheet'',
      data = [[valueCell (JStr ''Quarter'')], [valueCell (JStr ''Q1'')]]\<rparr>]\<rparr>"

definition finalJagged :: SpreadsheetData where
  "finalJagged = \<lparr>sheets = [\<lparr>name = ''Test Sheet'',
      data = [[valueCell (JStr ''Quarter'')],
              [valueCell (JStr ''Q1''), valueCell (JNum 10000)]]\<rparr>]\<rparr>"

text \<open>Calls on a fresh manager: an automatic progression that comes too early, one that
  succeeds, a skip, a valid transition and a step back; and the four transitions of a
  whole interview.\<close>

definition exampleCalls :: "(int \<times> ManagerCall) list" where
  "exampleCalls =
     [(10000, AutoProgress), (40000, AutoProgress), (50000, TransitionTo feedback_generation None),
      (60000, TransitionTo practical_tasks None), (70000, TransitionTo introduction None)]"

definition wholeInterview :: "(int \<times> ManagerCall) list" where
  "wholeInterview =
     [(40000, TransitionTo conceptual_questions None), (50000, TransitionTo practical_tasks None),
      (60000, TransitionTo feedback_generation None), (70000, TransitionTo conclusion None)]"

text \<open>The three stored configurations.\<close>

definition storedConfigs :: "ExcelSkillConfig list" where
  "storedConfigs =
     [\<lparr>config_id = 1, skill_level = basic, conceptual_topics = [], practical_skills = [],
       function_requirements = [''SUM''], complexity_level = 1\<rparr>,
      \<lparr>config_id = 2, skill_level = intermediate, conceptual_topics = [],
       practical_skills = [], function_requirements = [''VLOOKUP''], complexity_level = 2\<rparr>,
      \<lparr>config_id = 3, skill_level = advanced, conceptual_topics = [], practical_skills = [],
       function_requirements = [''INDEX'', ''MATCH''], complexity_level = 3\<rparr>]"

section \<open>The formula parser validates balanced parentheses\<close>


lemma parenDepth_Nil: "parenDepth [] = 0"
  by (simp add: parenDepth_def)

lemma parenDepth_Cons: "parenDepth (c # s) = parenDelta c + parenDepth s"
  by (simp add: parenDepth_def parenDelta_def)

lemma validateFormula_loop_step:
  "validateFormula_loop k (c # s) =
     (if k + parenDelta c < 0 then False else validateFormula_loop (k + parenDelta c) s)"
  by (simp add: parenDelta_def Let_def)

lemma validateFormula_loop_running:
  "0 \<le> k \<Longrightarrow>
   validateFormula_loop k s \<longleftrightarrow>
     (\<forall>n \<le> length s. 0 \<le> k + parenDepth (take n s)) \<and> k + parenDepth s = 0"
proof (induction s arbitrary: k)
  case Nil
  then show ?case by (simp add: parenDepth_Nil)
next
  case (Cons c s)
  let ?k = "k + parenDelta c"
  show ?case
  proof (cases "?k < 0")
    case True
    have "\<not> (\<forall>n \<le> length (c # s). 0 \<le> k + parenDepth (take n (c # s)))"
    proof
      assume "\<forall>n \<le> length (c # s). 0 \<le> k + parenDepth (take n (c # s))"
      then have "0 \<le> k + parenDepth (take 1 (c # s))" by (metis One_nat_def Suc_le_mono length_Cons zero_le)
      then show False using True by (simp add: parenDepth_Cons parenDepth_Nil)
    qed
    moreover have "\<not> validateFormula_loop k (c # s)"
      using True by (simp only: validateFormula_loop_step if_True not_False_eq_True)
    ultimately show ?thesis by blast
  next
    case False
    then have k: "0 \<le> ?k" by simp
    have A: "(\<forall>n \<le> length (c # s). 0 \<le> k + parenDepth (take n (c # s)))
           \<longleftrightarrow> (\<forall>n \<le> length s. 0 \<le> ?k + parenDepth (take n s))"
    proof
      assume a: "\<forall>n \<le> length (c # s). 0 \<le> k + parenDepth (take n (c # s))"
      show "\<forall>n \<le> length s. 0 \<le> ?k + parenDepth (take n s)"
      proof (intro allI impI)
        fix n assume "n \<le> length s"
        then have "Suc n \<le> length (c # s)" by simp
        with a have "0 \<le> k + parenDepth (take (Suc n) (c # s))" by blast
        then show "0 \<le> ?k + parenDepth (take n s)" by (simp add: parenDepth_Cons)
      qed
    next
      assume a: "\<forall>n \<le> length s. 0 \<le> ?k + parenDepth (take n s)"
      show "\<forall>n \<le> length (c # s). 0 \<le> k + parenDepth (take n (c # s))"
      proof (intro allI impI)
        fix n assume n: "n \<le> length (c # s)"
        show "0 \<le> k + parenDepth (take n (c # s))"
        proof (cases n)
          case 0 then show ?thesis using Cons.prems by (simp add: parenDepth_Nil)
        next
          case (Suc m)
          then have "m \<le> length s" using n by simp
          with a have "0 \<le> ?k + parenDepth (take m s)" by blast
          then show ?thesis using Suc by (simp add: parenDepth_Cons)
        qed
      qed
    qed
    have B: "k + parenDepth (c # s) = ?k + parenDepth s" by (simp add: parenDepth_Cons)
    have C: "validateFormula_loop k (c # s) = validateFormula_loop ?k s"
      using False by (simp only: validateFormula_loop_step if_False)
    show ?thesis by (simp only: A B C Cons.IH [OF k])
  qed
qed

lemma validateFormula_balanced: "validateFormula input \<longleftrightarrow> balancedParens input"
  using validateFormula_loop_running [of 0 input]
  by (simp add: validateFormula_def balancedParens_def)

text \<open>
  Claim C8. \<open>parseFormula\<close> is a total function: its two scanning loops terminate
  (each match and each failed attempt shortens the text that is left) and no branch
  raises. For every input that does not start with \<open>=\<close> (the empty string included)
  the result is the empty record with \<open>isValid = False\<close> and \<open>complexity = 0\<close>; for
  every input that starts with \<open>=\<close>, \<open>isValid\<close> holds exactly when the parentheses are
  balanced: the running count of open parentheses is never negative and ends at zero.
\<close>

theorem parseFormula_contract:
  "(\<not> startsWith input ''='' \<longrightarrow>
      parseFormula input =
        \<lparr>functions_list = [], references = [], isValid = False, complexity = 0\<rparr>)
   \<and> (startsWith input ''='' \<longrightarrow>
      (isValid (parseFormula input) \<longleftrightarrow> balancedParens input))"
proof (intro conjI impI)
  assume "\<not> startsWith input ''=''"
  then show "parseFormula input =
        \<lparr>functions_list = [], references = [], isValid = False, complexity = 0\<rparr>"
    by (simp add: parseFormula_def)
next
  assume a: "startsWith input ''=''"
  then have "input \<noteq> []" by auto
  with a show "isValid (parseFormula input) \<longleftrightarrow> balancedParens input"
    by (simp add: parseFormula_def Let_def validateFormula_balanced)
qed

text \<open>The contract at a balanced formula, at an unbalanced one and at a text that is
  not a formula.\<close>

theorem parseFormula_contract_witness:
  "startsWith ''=SUM(A1,B1)'' ''='' \<and> isValid (parseFormula ''=SUM(A1,B1)'')
   \<and> balancedParens ''=SUM(A1,B1)''
   \<and> startsWith ''=SUM(A1,B1'' ''='' \<and> \<not> isValid (parseFormula ''=SUM(A1,B1'')
   \<and> \<not> balancedParens ''=SUM(A1,B1''
   \<and> \<not> startsWith ''SUM(A1)'' ''=''
   \<and> parseFormula ''SUM(A1)'' =
        \<lparr>functions_list = [], references = [], isValid = False, complexity = 0\<rparr>"
proof -
  have s1: "startsWith ''=SUM(A1,B1)'' ''=''" by simp
  have s2: "startsWith ''=SUM(A1,B1'' ''=''" by simp
  have s3: "\<not> startsWith ''SUM(A1)'' ''=''" by simp
  have v1: "isValid (parseFormula ''=SUM(A1,B1)'')" by code_simp
  have v2: "\<not> isValid (parseFormula ''=SUM(A1,B1'')" by code_simp
  show ?thesis
    using parseFormula_contract [of "''=SUM(A1,B1)''"] parseFormula_contract [of "''=SUM(A1,B1''"]
      parseFormula_contract [of "''SUM(A1)''"] s1 s2 s3 v1 v2
    by blast
qed

section \<open>Column labels round trip\<close>

lemma charCode_fromCharCode:
  "0 \<le> k \<Longrightarrow> k < 256 \<Longrightarrow> charCode (fromCharCode k) = k"
  by (simp add: charCode_def fromCharCode_def)

lemma columnToLetter_loop_exact:
  assumes "0 \<le> col" and "col < 2 ^ 53"
  shows "columnToLetter_loop col result =
           columnToLetter_loop (col div 26 - 1) (fromCharCode (65 + col mod 26) # result)"
  using assms(1) by (subst columnToLetter_loop.simps) (simp add: nextColumn_exact [OF assms])

lemma columnToLetter_loop_negative:
  "col < 0 \<Longrightarrow> columnToLetter_loop col result = result"
  by (subst columnToLetter_loop.simps) simp

lemma roundInteger_exact:
  assumes "\<bar>n\<bar> \<le> 2 ^ 53"
  shows "roundInteger n = Finite n"
proof -
  have r: "roundToDouble (of_int n) = of_int n" using assms by (rule roundToDouble_of_int)
  have "(of_int \<bar>n\<bar> :: rat) \<le> of_int (2 ^ 53)" using assms by (simp only: of_int_le_iff)
  then have a: "\<bar>of_int n :: rat\<bar> \<le> 2 ^ 53" by simp
  have "(2::rat) ^ 53 < 2 ^ 1024" by (rule power_strict_increasing) simp_all
  with a have "(of_int n :: rat) < 2 ^ 1024" and "- (2 ^ 1024) < (of_int n :: rat)"
    by (simp_all only: abs_le_iff) linarith+
  then show ?thesis unfolding roundInteger_def r Let_def by (simp only: floor_of_int) simp
qed

lemma append_digit_exact:
  assumes "0 \<le> q" and "0 \<le> d" and "q * 26 + d \<le> 2 ^ 53"
  shows "plusInteger (times26 (Finite q)) d = Finite (q * 26 + d)"
proof -
  have "\<bar>q * 26\<bar> \<le> 2 ^ 53" using assms by simp
  then have "times26 (Finite q) = Finite (q * 26)" by (simp add: times26_def roundInteger_exact)
  moreover have "\<bar>q * 26 + d\<bar> \<le> 2 ^ 53" using assms by simp
  ultimately show ?thesis by (simp add: plusInteger_def roundInteger_exact)
qed

lemma letter_loop_column_loop:
  "0 \<le> col \<Longrightarrow> col < 2 ^ 53 \<Longrightarrow>
   letterToColumn_loop (Finite 0) (columnToLetter_loop col result)
     = letterToColumn_loop (Finite (col + 1)) result"
proof (induction col result rule: columnToLetter_loop.induct)
  case (1 col result)
  let ?c = "fromCharCode (65 + col mod 26)"
  have code: "charCode ?c = 65 + col mod 26"
    by (rule charCode_fromCharCode) (use pos_mod_bound [of 26 col] pos_mod_sign [of 26 col] in linarith)+
  have next_eq: "nextColumn col = col div 26 - 1"
    using "1.prems" by (rule nextColumn_exact)
  have unfold: "columnToLetter_loop col result = columnToLetter_loop (col div 26 - 1) (?c # result)"
    using "1.prems" by (rule columnToLetter_loop_exact)
  have q0: "0 \<le> col div 26" using "1.prems"(1) by (simp add: pos_imp_zdiv_nonneg_iff)
  have d0: "0 \<le> col mod 26 + 1" using pos_mod_sign [of 26 col] by linarith
  have sum: "col div 26 * 26 + (col mod 26 + 1) = col + 1" by simp
  have "col + 1 \<le> 2 ^ 53" using "1.prems"(2) by simp
  then have digit: "plusInteger (times26 (Finite (col div 26))) (col mod 26 + 1) = Finite (col + 1)"
    using append_digit_exact [OF q0 d0] by (simp only: sum)
  have step: "letterToColumn_loop (Finite (col div 26)) (?c # result)
                = letterToColumn_loop (Finite (col + 1)) result"
  proof -
    have "charCode ?c - 64 = col mod 26 + 1" using code by simp
    then show ?thesis by (simp only: letterToColumn_loop.simps digit)
  qed
  show ?case
  proof (cases "0 \<le> col div 26 - 1")
    case True
    have small: "col div 26 - 1 < 2 ^ 53" using "1.prems" by presburger
    have "letterToColumn_loop (Finite 0) (columnToLetter_loop (nextColumn col) (?c # result))
            = letterToColumn_loop (Finite (nextColumn col + 1)) (?c # result)"
      using "1.IH" [OF "1.prems"(1)] True small by (simp only: next_eq)
    then have "letterToColumn_loop (Finite 0) (columnToLetter_loop col result)
            = letterToColumn_loop (Finite (col div 26 - 1 + 1)) (?c # result)"
      by (simp only: unfold next_eq)
    then show ?thesis using step by simp
  next
    case False
    then have q: "col div 26 = 0" using q0 by linarith
    have stop: "columnToLetter_loop (col div 26 - 1) (?c # result) = ?c # result"
      using False by (intro columnToLetter_loop_negative) simp
    have "plusInteger (times26 (Finite 0)) (col mod 26 + 1) = Finite (col + 1)"
      using digit by (simp only: q)
    moreover have "charCode ?c - 64 = col mod 26 + 1" using code by simp
    ultimately show ?thesis unfolding unfold stop by (simp only: letterToColumn_loop.simps)
  qed
qed

text \<open>
  Claim C10, amended. For every zero-based column index \<open>c\<close> below \<open>2 ^ 53\<close>, decoding the
  label that \<open>columnToLetter\<close> builds gives the index back:
  \<open>letterToColumn (columnToLetter c) = c\<close>. Below that bound every quotient is rounded to
  a double with the right floor and every product, sum and difference is exact.
\<close>

theorem letterToColumn_columnToLetter:
  "c < 2 ^ 53 \<Longrightarrow> letterToColumn (columnToLetter (int c)) = Finite (int c)"
proof -
  assume "c < 2 ^ 53"
  then have "int c < int (2 ^ 53)" by (simp only: of_nat_less_iff)
  then have c: "int c < 2 ^ 53" by simp
  have "letterToColumn_loop (Finite 0) (columnToLetter_loop (int c) [])
          = letterToColumn_loop (Finite (int c + 1)) []"
    using c by (intro letter_loop_column_loop) simp_all
  then have "letterToColumn (columnToLetter (int c)) = plusInteger (Finite (int c + 1)) (- 1)"
    by (simp add: letterToColumn_def columnToLetter_def)
  also have "\<dots> = roundInteger (int c)" by (simp add: plusInteger_def)
  also have "\<dots> = Finite (int c)" using c by (intro roundInteger_exact) simp
  finally show ?thesis .
qed

theorem letterToColumn_columnToLetter_witness:
  "(701::nat) < 2 ^ 53 \<and> letterToColumn (columnToLetter (int 701)) = Finite (int 701)"
  using letterToColumn_columnToLetter [of 701] by simp

text \<open>
  Claim C10, as stated, fails at \<open>c = 2 ^ 53\<close>: the label of \<open>2 ^ 53\<close> is built without
  error, but decoding it adds the last letter to \<open>2 ^ 53 - 6\<close>, the sum \<open>2 ^ 53 + 1\<close> is
  not a double and is rounded to \<open>2 ^ 53\<close>, and the result is \<open>2 ^ 53 - 1\<close>.
\<close>

lemma nextColumn_two_53: "nextColumn (2 ^ 53) = 346430740566960"
  by code_simp

lemma roundToDouble_two_53_plus_1: "roundToDouble (of_int (2 ^ 53 + 1)) = 2 ^ 53"
  by code_simp

text \<open>The counterexample to claim C10 as stated.\<close>

theorem letterToColumn_columnToLetter_counterexample:
  "letterToColumn (columnToLetter (int (2 ^ 53))) = Finite (2 ^ 53 - 1)
   \<and> letterToColumn (columnToLetter (int (2 ^ 53))) \<noteq> Finite (int (2 ^ 53))"
proof -
  let ?c = "fromCharCode (65 + 2 ^ 53 mod 26)"
  have code: "charCode ?c - 64 = 7"
    using charCode_fromCharCode [of "65 + 2 ^ 53 mod 26"] by simp
  have "columnToLetter_loop (2 ^ 53) [] = columnToLetter_loop 346430740566960 [?c]"
    by (subst columnToLetter_loop.simps) (simp add: nextColumn_two_53 [simplified])
  then have "letterToColumn_loop (Finite 0) (columnToLetter_loop (2 ^ 53) [])
               = letterToColumn_loop (Finite (346430740566960 + 1)) [?c]"
    using letter_loop_column_loop [of 346430740566960 "[?c]"] by simp
  also have "\<dots> = plusInteger (times26 (Finite 346430740566961)) 7"
    by (simp add: code [simplified])
  also have "times26 (Finite 346430740566961) = Finite 9007199254740986"
    using roundInteger_exact [of "346430740566961 * 26"] by (simp add: times26_def)
  also have "plusInteger (Finite 9007199254740986) 7 = roundInteger (2 ^ 53 + 1)"
    by (simp add: plusInteger_def)
  also have "roundInteger (2 ^ 53 + 1) = Finite (2 ^ 53)"
  proof -
    have "(2::rat) ^ 53 < 2 ^ 1024" by (rule power_strict_increasing) simp_all
    moreover have "- ((2::rat) ^ 1024) < 2 ^ 53"
      by (rule less_trans [of _ 0]) simp_all
    ultimately show ?thesis
      unfolding roundInteger_def roundToDouble_two_53_plus_1 Let_def
      by (simp only: not_le [symmetric]) (simp only: not_le if_False, simp)
  qed
  finally have loop: "letterToColumn_loop (Finite 0) (columnToLetter_loop (2 ^ 53) []) = Finite (2 ^ 53)" .
  have "letterToColumn (columnToLetter (2 ^ 53)) = roundInteger (2 ^ 53 - 1)"
    by (simp add: letterToColumn_def columnToLetter_def loop [simplified] plusInteger_def)
  also have "\<dots> = Finite (2 ^ 53 - 1)" by (rule roundInteger_exact) simp
  finally have "letterToColumn (columnToLetter (2 ^ 53)) = Finite (2 ^ 53 - 1)" .
  then show ?thesis by simp
qed

section \<open>The action log\<close>

lemma trackerCall_keeps_log:
  "(\<forall>action. call \<noteq> AddAction action) \<Longrightarrow> call \<noteq> Clear \<Longrightarrow> snd (trackerCall call tr) = tr"
  by (cases call) simp_all

lemma trackerCall_actions:
  "call \<noteq> Clear \<Longrightarrow>
   actions (snd (trackerCall call tr)) = actions tr @ addedActions [call]"
  by (cases call) (simp_all add: addAction_def)

lemma addedActions_Cons:
  "addedActions (call # calls) = addedActions [call] @ addedActions calls"
  by (cases call) simp_all

lemma trackerCalls_actions:
  "Clear \<notin> set calls \<Longrightarrow>
   actions (trackerCalls calls tr) = actions tr @ addedActions calls"
proof (induction calls arbitrary: tr)
  case Nil
  show ?case by simp
next
  case (Cons call calls)
  then have c: "call \<noteq> Clear" and cs: "Clear \<notin> set calls" by auto
  have "actions (trackerCalls (call # calls) tr)
          = actions (snd (trackerCall call tr)) @ addedActions calls"
    using Cons.IH [OF cs] by simp
  also have "\<dots> = (actions tr @ addedActions [call]) @ addedActions calls"
    by (simp only: trackerCall_actions [OF c])
  also have "\<dots> = actions tr @ addedActions (call # calls)"
    by (simp add: addedActions_Cons [of call calls])
  finally show ?case .
qed

text \<open>
  Claim C9, amended. The tracker is a total state machine whose only state is the action
  log, so no operation can fail. Every public operation other than \<open>addAction\<close> and
  \<open>clear\<close> leaves the tracker unchanged; \<open>addAction\<close> appends its argument to the log;
  \<open>clear\<close> empties the log; and after any sequence of operations without \<open>clear\<close> the log
  is the log before, unchanged, followed by the added actions in the order of their
  addition.
\<close>

theorem tracker_append_only:
  "((\<forall>action. call \<noteq> AddAction action) \<and> call \<noteq> Clear \<longrightarrow> snd (trackerCall call tr) = tr)
   \<and> actions (snd (trackerCall (AddAction a) tr)) = actions tr @ [a]
   \<and> actions (snd (trackerCall Clear tr)) = []
   \<and> (Clear \<notin> set calls \<longrightarrow>
        actions (trackerCalls calls tr) = actions tr @ addedActions calls)"
  using trackerCall_keeps_log [of call tr] trackerCalls_actions [of calls tr]
  by (simp add: addAction_def clear_def)

theorem tracker_append_only_witness:
  "actions (trackerCalls [AddAction sumAction, GetFunctionsUsed, GetEfficiencyMetrics,
       AddAction editAction, GetActions] newActionTracker) = [sumAction, editAction]
   \<and> snd (trackerCall GetFormulasUsed (addAction sumAction newActionTracker))
       = addAction sumAction newActionTracker"
  using tracker_append_only [of GetFormulasUsed "addAction sumAction newActionTracker" sumAction
      "[AddAction sumAction, GetFunctionsUsed, GetEfficiencyMetrics,
       AddAction editAction, GetActions]"]
    tracker_append_only [of GetFormulasUsed newActionTracker sumAction
      "[AddAction sumAction, GetFunctionsUsed, GetEfficiencyMetrics,
       AddAction editAction, GetActions]"]
  by (simp add: newActionTracker_def)

text \<open>
  Claim C9, as stated, fails: \<open>clear\<close> is a public operation other than \<open>addAction\<close>, and
  it removes every recorded action.
\<close>

theorem tracker_clear_counterexample:
  "actions (addAction sumAction newActionTracker) = [sumAction]
   \<and> actions (snd (trackerCall Clear (addAction sumAction newActionTracker))) = []
   \<and> snd (trackerCall Clear (addAction sumAction newActionTracker))
       \<noteq> addAction sumAction newActionTracker"
  by (simp add: addAction_def newActionTracker_def clear_def)

section \<open>The best practices score\<close>

lemma example_functions_used: "getFunctionsUsed (addAction editAction (addAction sumAction newActionTracker)) = [''SUM'']"
  by code_simp

lemma example_score: "calculateBestPracticesScore (addAction editAction (addAction sumAction newActionTracker)) vlookupRubric = 90"
  by code_simp

text \<open>
  Claim C7, as stated, fails in its last part: with a rubric that requires \<open>VLOOKUP\<close> and
  lists \<open>SUM\<close> as optional, a candidate who used only \<open>SUM\<close> and did not rush scores
  \<open>100 - 20 + 10 = 90\<close>.
\<close>

theorem bestPractices_counterexample:
  "set (getFunctionsUsed (addAction editAction (addAction sumAction newActionTracker))) = {''SUM''}
   \<and> required_formulas vlookupRubric = Some [''VLOOKUP'']
   \<and> \<not> calculateBestPracticesScore (addAction editAction (addAction sumAction newActionTracker))
         vlookupRubric \<le> 80"
  by (simp add: example_functions_used example_score) (simp add: vlookupRubric_def)

text \<open>
  Claim C7, amended. For every action log and task rubric, the best practices score is
  100, minus 20 for every required formula of the rubric that is absent from the
  functions used, plus 10 for every optional formula of the rubric that is present,
  minus 10 if the average time between actions (which \<open>getEfficiencyMetrics\<close> gives as 0
  for a log of fewer than two actions) is under 1000 milliseconds, clamped to
  \<open>[0, 100]\<close>. In particular, when the rubric requires \<open>VLOOKUP\<close>, the functions used are
  only \<open>SUM\<close> and \<open>SUM\<close> is not an optional formula of the rubric, the score is at most 80.
\<close>

theorem bestPractices_formula:
  "calculateBestPracticesScore tracker criteria =
     max 0 (min 100
       (100
        - 20 * int (length (filter (\<lambda>func. func \<notin> set (getFunctionsUsed tracker))
                              (orEmpty (required_formulas criteria))))
        + 10 * int (length (filter (\<lambda>func. func \<in> set (getFunctionsUsed tracker))
                              (orEmpty (optional_formulas criteria))))
        - (if averageTimeBetweenActions (getEfficiencyMetrics tracker) < 1000 then 10 else 0)))
   \<and> (set (getFunctionsUsed tracker) = {''SUM''}
        \<and> ''VLOOKUP'' \<in> set (orEmpty (required_formulas criteria))
        \<and> ''SUM'' \<notin> set (orEmpty (optional_formulas criteria))
      \<longrightarrow> calculateBestPracticesScore tracker criteria \<le> 80)"
proof (intro conjI impI)
  show eq: "calculateBestPracticesScore tracker criteria =
     max 0 (min 100
       (100
        - 20 * int (length (filter (\<lambda>func. func \<notin> set (getFunctionsUsed tracker))
                              (orEmpty (required_formulas criteria))))
        + 10 * int (length (filter (\<lambda>func. func \<in> set (getFunctionsUsed tracker))
                              (orEmpty (optional_formulas criteria))))
        - (if averageTimeBetweenActions (getEfficiencyMetrics tracker) < 1000 then 10 else 0)))"
  proof -
    have inner: "(if c then 100 - a * 20 + b * 10 - 10 else 100 - a * 20 + b * 10)
                   = 100 - 20 * a + 10 * b - (if c then 10 else 0)" for a b :: int and c :: bool
      by simp
    show ?thesis
      unfolding calculateBestPracticesScore_def Let_def inner ..
  qed
  assume a: "set (getFunctionsUsed tracker) = {''SUM''}
        \<and> ''VLOOKUP'' \<in> set (orEmpty (required_formulas criteria))
        \<and> ''SUM'' \<notin> set (orEmpty (optional_formulas criteria))"
  let ?missing = "filter (\<lambda>func. func \<notin> set (getFunctionsUsed tracker))
                              (orEmpty (required_formulas criteria))"
  let ?used = "filter (\<lambda>func. func \<in> set (getFunctionsUsed tracker))
                              (orEmpty (optional_formulas criteria))"
  have "''VLOOKUP'' \<in> set ?missing" using a by simp
  then have "0 < length ?missing" by (simp only: length_pos_if_in_set)
  then have m: "1 \<le> int (length ?missing)" by linarith
  have "set ?used = {}" using a by auto
  then have u: "?used = []" by simp
  show "calculateBestPracticesScore tracker criteria \<le> 80"
    unfolding eq u using m by (simp split: if_splits)
qed

lemma example_score_average:
  "calculateBestPracticesScore (addAction editAction (addAction sumAction newActionTracker))
     averageRubric = 80"
  by code_simp

theorem bestPractices_formula_witness:
  "set (getFunctionsUsed (addAction editAction (addAction sumAction newActionTracker))) = {''SUM''}
   \<and> ''VLOOKUP'' \<in> set (orEmpty (required_formulas averageRubric))
   \<and> ''SUM'' \<notin> set (orEmpty (optional_formulas averageRubric))
   \<and> calculateBestPracticesScore (addAction editAction (addAction sumAction newActionTracker))
         averageRubric \<le> 80"
proof -
  have r: "''VLOOKUP'' \<in> set (orEmpty (required_formulas averageRubric))"
    by (simp add: averageRubric_def orEmpty_def)
  have o: "''SUM'' \<notin> set (orEmpty (optional_formulas averageRubric))"
    by (simp add: averageRubric_def orEmpty_def)
  have f: "set (getFunctionsUsed (addAction editAction (addAction sumAction newActionTracker)))
             = {''SUM''}"
    by (simp add: example_functions_used)
  show ?thesis
    using bestPractices_formula
      [of "addAction editAction (addAction sumAction newActionTracker)" averageRubric] r o f
    by blast
qed

section \<open>The accuracy of the grid differ\<close>

lemma fold_counts:
  fixes a b :: "nat \<Rightarrow> nat"
  assumes step: "\<And>i acc. F i acc = (fst acc + a i, snd acc + b i)"
  shows "fold F [0..<n] acc = (fst acc + (\<Sum>i<n. a i), snd acc + (\<Sum>i<n. b i))"
proof (induction n)
  case 0
  show ?case by simp
next
  case (Suc n)
  have "fold F [0..<Suc n] acc = F n (fold F [0..<n] acc)" by simp
  also have "\<dots> = F n (fst acc + (\<Sum>i<n. a i), snd acc + (\<Sum>i<n. b i))"
    by (simp only: Suc.IH)
  also have "\<dots> = (fst acc + (\<Sum>i<Suc n. a i), snd acc + (\<Sum>i<Suc n. b i))"
    by (simp add: step)
  finally show ?case .
qed

lemma accuracyCell_counts:
  "accuracyCell adata r c x acc =
     (fst acc + of_bool (cellV x \<noteq> None),
      snd acc + of_bool (cellV x \<noteq> None \<and> cellV (cellAt adata r c) = cellV x))"
  by (cases acc) (auto simp: accuracyCell_def cellV_def split: Cell.splits option.splits)

lemma accuracySheet_counts:
  "accuracySheet adata edata acc =
     (fst acc + (\<Sum>r<length edata. \<Sum>c<length (edata ! r).
                   of_bool (cellV (edata ! r ! c) \<noteq> None)),
      snd acc + (\<Sum>r<length edata. \<Sum>c<length (edata ! r).
                   of_bool (cellV (edata ! r ! c) \<noteq> None
                            \<and> cellV (cellAt adata r c) = cellV (edata ! r ! c))))"
  unfolding accuracySheet_def
  by (rule fold_counts) (rule fold_counts, rule accuracyCell_counts)

lemma accuracyCounts_sums:
  "accuracyCounts actual expected =
     ((\<Sum>i<length (sheets expected).
         if i < length (sheets actual)
         then \<Sum>r<length (data (sheets expected ! i)).
                \<Sum>c<length (data (sheets expected ! i) ! r).
                  of_bool (cellV (data (sheets expected ! i) ! r ! c) \<noteq> None)
         else 0),
      (\<Sum>i<length (sheets expected).
         if i < length (sheets actual)
         then \<Sum>r<length (data (sheets expected ! i)).
                \<Sum>c<length (data (sheets expected ! i) ! r).
                  of_bool (cellV (data (sheets expected ! i) ! r ! c) \<noteq> None
                           \<and> cellV (cellAt (data (sheets actual ! i)) r c)
                               = cellV (data (sheets expected ! i) ! r ! c))
         else 0))"
proof -
  have "accuracyCounts actual expected = (fst (0::nat, 0::nat) + (\<Sum>i<length (sheets expected).
         if i < length (sheets actual)
         then \<Sum>r<length (data (sheets expected ! i)).
                \<Sum>c<length (data (sheets expected ! i) ! r).
                  of_bool (cellV (data (sheets expected ! i) ! r ! c) \<noteq> None)
         else 0),
      snd (0::nat, 0::nat) + (\<Sum>i<length (sheets expected).
         if i < length (sheets actual)
         then \<Sum>r<length (data (sheets expected ! i)).
                \<Sum>c<length (data (sheets expected ! i) ! r).
                  of_bool (cellV (data (sheets expected ! i) ! r ! c) \<noteq> None
                           \<and> cellV (cellAt (data (sheets actual ! i)) r c)
                               = cellV (data (sheets expected ! i) ! r ! c))
         else 0))"
    unfolding accuracyCounts_def
    by (rule fold_counts) (simp add: accuracySheet_counts)
  then show ?thesis by simp
qed

lemma card_filter_less:
  "card {c::nat. c < m \<and> Q c} = (\<Sum>c<m. of_bool (Q c))"
proof -
  have "{c. c < m \<and> Q c} = {c \<in> {..<m}. Q c}" by auto
  then have "card {c. c < m \<and> Q c} = sum (\<lambda>c. 1) {c \<in> {..<m}. Q c}"
    by (simp only: card_eq_sum)
  also have "\<dots> = (\<Sum>c<m. if Q c then 1 else 0)"
    by (rule sum.inter_filter) simp
  also have "\<dots> = (\<Sum>c<m. of_bool (Q c))"
    by (rule sum.cong) auto
  finally show ?thesis .
qed

lemma card_triples:
  fixes R :: "nat \<Rightarrow> nat" and C :: "nat \<Rightarrow> nat \<Rightarrow> nat"
  shows "card {(i, r, c). i < n \<and> A i \<and> r < R i \<and> c < C i r \<and> P i r c}
         = (\<Sum>i<n. if A i then \<Sum>r<R i. \<Sum>c<C i r. of_bool (P i r c) else 0)"
proof -
  let ?I = "{i \<in> {..<n}. A i}"
  let ?cols = "\<lambda>i r. {c. c < C i r \<and> P i r c}"
  let ?rows = "\<lambda>i. Sigma {..<R i} (?cols i)"
  have set_eq: "{(i, r, c). i < n \<and> A i \<and> r < R i \<and> c < C i r \<and> P i r c} = Sigma ?I ?rows"
    by auto
  have fin_cols: "finite (?cols i r)" for i r by simp
  have fin_rows: "finite (?rows i)" for i by (rule finite_SigmaI) (simp_all)
  have card_rows: "card (?rows i) = (\<Sum>r<R i. \<Sum>c<C i r. of_bool (P i r c))" for i
  proof -
    have "card (?rows i) = (\<Sum>r<R i. card (?cols i r))"
      by (rule card_SigmaI) (simp_all)
    then show ?thesis by (simp only: card_filter_less)
  qed
  have "card (Sigma ?I ?rows) = (\<Sum>i\<in>?I. card (?rows i))"
    by (rule card_SigmaI) (use fin_rows in auto)
  also have "\<dots> = (\<Sum>i\<in>?I. \<Sum>r<R i. \<Sum>c<C i r. of_bool (P i r c))"
    by (simp only: card_rows)
  also have "\<dots> = (\<Sum>i<n. if A i then \<Sum>r<R i. \<Sum>c<C i r. of_bool (P i r c) else 0)"
    by (rule sum.inter_filter) simp
  finally show ?thesis by (simp only: set_eq)
qed

lemma cellAt_in_range:
  "r < length d \<Longrightarrow> c < length (d ! r) \<Longrightarrow> cellAt d r c = d ! r ! c"
  by (simp add: cellAt_def)

lemma gradedCellsIn_triples:
  "gradedCellsIn final expected =
     {(i, r, c). i < length (sheets expected) \<and> i < length (sheets final)
        \<and> r < length (data (sheets expected ! i))
        \<and> c < length (data (sheets expected ! i) ! r)
        \<and> cellV (data (sheets expected ! i) ! r ! c) \<noteq> None}"
  by (auto simp: gradedCellsIn_def gradedCells_def)

lemma correctCellsIn_triples:
  "correctCellsIn final expected =
     {(i, r, c). i < length (sheets expected) \<and> i < length (sheets final)
        \<and> r < length (data (sheets expected ! i))
        \<and> c < length (data (sheets expected ! i) ! r)
        \<and> (cellV (data (sheets expected ! i) ! r ! c) \<noteq> None
           \<and> cellV (cellAt (data (sheets final ! i)) r c)
               = cellV (data (sheets expected ! i) ! r ! c))}"
  unfolding correctCellsIn_def gradedCellsIn_triples
  by (auto simp: snapshotCell_def cellAt_in_range)

lemma accuracyCounts_card:
  "accuracyCounts final expected =
     (card (gradedCellsIn final expected), card (correctCellsIn final expected))"
  unfolding gradedCellsIn_triples correctCellsIn_triples card_triples accuracyCounts_sums ..

lemma finite_gradedCells: "finite (gradedCells expected)"
proof -
  let ?n = "length (sheets expected)"
  let ?R = "\<lambda>i. length (data (sheets expected ! i))"
  let ?C = "\<lambda>i r. length (data (sheets expected ! i) ! r)"
  have "gradedCells expected \<subseteq> Sigma {..<?n} (\<lambda>i. Sigma {..<?R i} (\<lambda>r. {..<?C i r}))"
    by (auto simp: gradedCells_def)
  moreover have "finite (Sigma {..<?n} (\<lambda>i. Sigma {..<?R i} (\<lambda>r. {..<?C i r})))"
    by (intro finite_SigmaI ballI) simp_all
  ultimately show ?thesis by (rule finite_subset)
qed

lemma correct_le_graded:
  "card (correctCellsIn final expected) \<le> card (gradedCellsIn final expected)"
proof (rule card_mono)
  show "finite (gradedCellsIn final expected)"
    by (rule finite_subset [OF _ finite_gradedCells [of expected]]) (auto simp: gradedCellsIn_def)
  show "correctCellsIn final expected \<subseteq> gradedCellsIn final expected"
    by (auto simp: correctCellsIn_def)
qed

text \<open>
  Claim C1, amended. For every final and expected snapshot, the accuracy that the grid
  differ reports is 100 times the number of correct cells divided by the number of
  graded cells, where a graded cell is a cell with a defined value in a sheet of
  \<open>expected\<close> whose index is also the index of a sheet of \<open>final\<close>, and a graded cell
  is correct when the cell of \<open>final\<close> at its position has exactly the same value; with
  no graded cell the accuracy is 0; and the accuracy is between 0 and 100.
\<close>

theorem accuracy_counts_graded_cells:
  "accuracy (compareSpreadsheets initial final (Some expected)) =
     (if card (gradedCellsIn final expected) = 0 then 0
      else 100 * of_nat (card (correctCellsIn final expected))
             / of_nat (card (gradedCellsIn final expected)))
   \<and> 0 \<le> accuracy (compareSpreadsheets initial final (Some expected))
   \<and> accuracy (compareSpreadsheets initial final (Some expected)) \<le> 100"
proof -
  let ?g = "card (gradedCellsIn final expected)"
  let ?c = "card (correctCellsIn final expected)"
  have acc: "accuracy (compareSpreadsheets initial final (Some expected)) =
               (if ?g = 0 then 0 else 100 * of_nat ?c / of_nat ?g)"
    by (simp add: compareSpreadsheets_def Let_def calculateAccuracy_def accuracyCounts_card)
  have le: "(of_nat ?c :: rat) \<le> of_nat ?g" using correct_le_graded [of final expected] by simp
  have "0 \<le> (if ?g = 0 then 0 else 100 * of_nat ?c / of_nat ?g :: rat)" by simp
  moreover have "(if ?g = 0 then 0 else 100 * of_nat ?c / of_nat ?g :: rat) \<le> 100"
  proof (cases "?g = 0")
    case True then show ?thesis by simp
  next
    case False
    then have "0 < (of_nat ?g :: rat)" by simp
    then have "100 * of_nat ?c / of_nat ?g \<le> (100::rat)" using le
      by (simp add: divide_le_eq)
    then show ?thesis using False by simp
  qed
  ultimately show ?thesis by (simp only: acc)
qed

lemma gradedCells_expectedTwoSheets:
  "gradedCells expectedTwoSheets = {(0, 0, 0), (1, 0, 0)}"
  by (auto simp: gradedCells_def expectedTwoSheets_def valueCell_def cellV_def less_Suc_eq nth_Cons'
      split: if_splits)

lemma correctCells_expectedTwoSheets:
  "correctCells finalOneSheet expectedTwoSheets = {(0, 0, 0)}"
  unfolding correctCells_def gradedCells_expectedTwoSheets
  by (auto simp: snapshotCell_def expectedTwoSheets_def finalOneSheet_def valueCell_def cellV_def cellAt_def)

lemma specAccuracy_example: "specAccuracy finalOneSheet expectedTwoSheets = 50"
  by (simp add: specAccuracy_def gradedCells_expectedTwoSheets correctCells_expectedTwoSheets)

lemma accuracy_example:
  "accuracy (compareSpreadsheets finalOneSheet finalOneSheet (Some expectedTwoSheets)) = 100"
  by code_simp

text \<open>
  Claim C1, as stated, fails: the cells of a sheet of \<open>expected\<close> that \<open>final\<close> has no
  sheet for are not graded. With two expected sheets of one valued cell each and a
  final snapshot that holds the first sheet only, the accuracy is 100, not 50.
\<close>

theorem accuracy_missing_sheet_counterexample:
  "accuracy (compareSpreadsheets finalOneSheet finalOneSheet (Some expectedTwoSheets))
     \<noteq> specAccuracy finalOneSheet expectedTwoSheets"
  by (simp add: specAccuracy_example accuracy_example)

section \<open>The rectangle of the grid differ\<close>

lemma fold_fst_concat:
  assumes "\<And>x acc. fst (F x acc) = fst acc @ g x"
  shows "fst (fold F xs acc) = fst acc @ concat (map g xs)"
  by (induction xs arbitrary: acc) (simp_all add: assms)

lemma compareCell_fst:
  "fst (compareCell idata fdata r c acc) =
     fst acc @ (if cellDiffers idata fdata r c then [changeAt idata fdata r c] else [])"
  by (simp add: compareCell_def cellDiffers_def changeAt_def Let_def)

lemma concat_map_if:
  "concat (map (\<lambda>c. if P c then [h c] else []) cs) = map h (filter P cs)"
  by (induction cs) simp_all

lemma compareRow_fst:
  "fst (fold (\<lambda>c. compareCell idata fdata r c) cs acc) =
     fst acc @ map (changeAt idata fdata r) (filter (cellDiffers idata fdata r) cs)"
proof -
  have "fst (fold (\<lambda>c. compareCell idata fdata r c) cs acc) =
          fst acc @ concat (map (\<lambda>c. if cellDiffers idata fdata r c
                                        then [changeAt idata fdata r c] else []) cs)"
    by (rule fold_fst_concat) (rule compareCell_fst)
  then show ?thesis by (simp only: concat_map_if)
qed

text \<open>The changes recorded for a pair of sheets are, row by row, those of the differing
  positions of the rectangle that is as high as the longer grid and as wide as the
  longer of the two first rows.\<close>

lemma compareSheet_changes:
  "fst (compareSheet initialSheet finalSheet acc) =
     fst acc @
     concat (map (\<lambda>r. map (changeAt (data initialSheet) (data finalSheet) r)
                         (filter (cellDiffers (data initialSheet) (data finalSheet) r)
                            [0..<max (firstRowLength (data initialSheet))
                                     (firstRowLength (data finalSheet))]))
               [0..<max (length (data initialSheet)) (length (data finalSheet))])"
  unfolding compareSheet_def Let_def
  by (rule fold_fst_concat) (rule compareRow_fst)

text \<open>
  Claim C3 does not hold of the code: the width of the rectangle that
  \<open>compareSpreadsheets\<close> walks is the larger of the lengths of the two first rows, not of
  all rows. In the jagged pair below, position \<open>(1, 1)\<close> (cell \<open>B2\<close>) lies inside the
  bounding rectangle of the two grids and its two serialised values differ (the cell is
  missing in the initial grid and holds 10000 in the final one), yet no changed cell is
  recorded.
\<close>

theorem compareSpreadsheets_misses_jagged_change:
  "changedCells (compareSpreadsheets initialJagged finalJagged None) = []
   \<and> json_stringify (snapshotCell initialJagged (0, 1, 1))
       \<noteq> json_stringify (snapshotCell finalJagged (0, 1, 1))"
  by code_simp

section \<open>The session state machine\<close>

lemma updateStateData_current_state:
  "current_state (updateStateData new_state d now s) = current_state s"
  by (simp add: updateStateData_def Let_def split: ExcelInterviewState.splits option.splits)

lemma updateStateData_state_history:
  "state_history (updateStateData new_state d now s) = state_history s"
  by (simp add: updateStateData_def Let_def split: ExcelInterviewState.splits option.splits)

lemma transition_to_invalid:
  "\<not> can_transition new_state mgr \<Longrightarrow> transition_to new_state d now mgr = (False, mgr)"
  by (simp add: transition_to_def)

lemma transition_to_valid:
  assumes "can_transition new_state mgr"
  shows "fst (transition_to new_state d now mgr) = True"
    and "current_state (session (snd (transition_to new_state d now mgr))) = new_state"
    and "state_history (session (snd (transition_to new_state d now mgr))) =
           state_history (session mgr) @
             [\<lparr>from_state = current_state (session mgr), to_state = new_state,
               transition_timestamp = now, trigger = triggerOf d, transition_data = d\<rparr>]"
  using assms
  by (simp_all add: transition_to_def Let_def updateStateData_current_state
      updateStateData_state_history)

lemma can_transition_flow:
  assumes "n < length stateFlow" and "current_state (session mgr) = stateFlow ! n"
    and "can_transition new_state mgr"
  shows "Suc n < length stateFlow \<and> new_state = stateFlow ! Suc n"
proof -
  from assms(1) have "n = 0 \<or> n = 1 \<or> n = 2 \<or> n = 3 \<or> n = 4"
    by (simp add: stateFlow_def) arith
  then show ?thesis
    using assms(2,3)
    by (elim disjE) (simp_all add: stateFlow_def can_transition_def getValidTransitions_def)
qed

lemma linearHistory_transition_to:
  assumes inv: "linearHistory mgr"
  shows "linearHistory (snd (transition_to new_state d now mgr))"
proof (cases "can_transition new_state mgr")
  case False
  then show ?thesis using inv by (simp add: transition_to_invalid)
next
  case True
  let ?h = "state_history (session mgr)"
  let ?n = "length ?h"
  from inv have n: "?n < length stateFlow"
    and cur: "current_state (session mgr) = stateFlow ! ?n"
    and froms: "map from_state ?h = take ?n stateFlow"
    and tos: "map to_state ?h = take ?n (tl stateFlow)"
    by (simp_all add: linearHistory_def Let_def)
  from can_transition_flow [OF n cur True]
  have n': "Suc ?n < length stateFlow" and new: "new_state = stateFlow ! Suc ?n" by simp_all
  have tl_nth: "tl stateFlow ! ?n = stateFlow ! Suc ?n"
    using n' by (simp add: nth_tl)
  have n_tl: "?n < length (tl stateFlow)" using n' by simp
  have "take (Suc ?n) stateFlow = take ?n stateFlow @ [stateFlow ! ?n]"
    using n by (rule take_Suc_conv_app_nth)
  moreover have "take (Suc ?n) (tl stateFlow) = take ?n (tl stateFlow) @ [tl stateFlow ! ?n]"
    using n_tl by (rule take_Suc_conv_app_nth)
  moreover note hs = transition_to_valid(3) [OF True, of d now]
  moreover note cs = transition_to_valid(2) [OF True, of d now]
  ultimately show ?thesis
    unfolding linearHistory_def Let_def hs cs
    using n' new cur froms tos tl_nth by simp
qed

lemma linearHistory_autoProgress:
  "linearHistory mgr \<Longrightarrow> linearHistory (snd (autoProgress now mgr))"
  by (simp add: autoProgress_def linearHistory_transition_to split: option.splits)

lemma linearHistory_managerCall:
  "linearHistory mgr \<Longrightarrow> linearHistory (snd (managerCall call mgr))"
proof (cases call)
  case (Pair now c)
  assume "linearHistory mgr"
  then show ?thesis using Pair
    by (cases c) (simp_all add: linearHistory_transition_to linearHistory_autoProgress)
qed

lemma linearHistory_managerCalls:
  "linearHistory mgr \<Longrightarrow> linearHistory (managerCalls calls mgr)"
  by (induction calls arbitrary: mgr) (simp_all add: linearHistory_managerCall)

lemma linearHistory_create:
  "linearHistory (createExcelInterviewStateManager responseId totalQuestions totalTasks now)"
  by (simp add: linearHistory_def createExcelInterviewStateManager_def stateFlow_def)

lemma linearHistory_chain:
  assumes inv: "linearHistory mgr" and k: "k < length (state_history (session mgr))"
  shows "from_state (state_history (session mgr) ! k) =
           (if k = 0 then introduction else to_state (state_history (session mgr) ! (k - 1)))"
proof -
  let ?h = "state_history (session mgr)"
  from inv have n: "length ?h < length stateFlow"
    and froms: "map from_state ?h = take (length ?h) stateFlow"
    and tos: "map to_state ?h = take (length ?h) (tl stateFlow)"
    by (simp_all add: linearHistory_def Let_def)
  have f: "from_state (?h ! k) = stateFlow ! k"
    using k froms by (metis nth_map nth_take)
  show ?thesis
  proof (cases k)
    case 0
    then show ?thesis using f by (simp add: stateFlow_def)
  next
    case (Suc j)
    then have j: "j < length ?h" using k by simp
    have "to_state (?h ! j) = tl stateFlow ! j"
      using j tos by (metis nth_map nth_take)
    also have "\<dots> = stateFlow ! Suc j" using n k Suc by (simp add: nth_tl)
    finally show ?thesis using f Suc by simp
  qed
qed

text \<open>
  Claim C2, amended. For every session reachable from a freshly created session by any
  sequence of calls of \<open>transition_to\<close> and \<open>autoProgress\<close>, the sequence of the \<open>to_state\<close>
  values of the history is a prefix of \<open>conceptual_questions\<close>, \<open>practical_tasks\<close>,
  \<open>feedback_generation\<close>, \<open>conclusion\<close> (the five states of the flow without the initial
  one, which no transition enters), and the \<open>from_state\<close> of every entry is the \<open>to_state\<close>
  of the entry before it, or the initial state \<open>introduction\<close> for the first entry.
\<close>

theorem state_history_linear:
  "prefix (map to_state (state_history (session (managerCalls calls
             (createExcelInterviewStateManager responseId totalQuestions totalTasks t0)))))
     [conceptual_questions, practical_tasks, feedback_generation, conclusion]
   \<and> (\<forall>k < length (state_history (session (managerCalls calls
             (createExcelInterviewStateManager responseId totalQuestions totalTasks t0)))).
        from_state (state_history (session (managerCalls calls
             (createExcelInterviewStateManager responseId totalQuestions totalTasks t0))) ! k) =
          (if k = 0 then introduction
           else to_state (state_history (session (managerCalls calls
             (createExcelInterviewStateManager responseId totalQuestions totalTasks t0)))
               ! (k - 1))))"
proof -
  let ?mgr = "managerCalls calls
                (createExcelInterviewStateManager responseId totalQuestions totalTasks t0)"
  have inv: "linearHistory ?mgr"
    by (rule linearHistory_managerCalls) (rule linearHistory_create)
  then have "map to_state (state_history (session ?mgr))
               = take (length (state_history (session ?mgr))) (tl stateFlow)"
    by (simp add: linearHistory_def Let_def)
  then have "prefix (map to_state (state_history (session ?mgr))) (tl stateFlow)"
    by (metis take_is_prefix)
  then have "prefix (map to_state (state_history (session ?mgr)))
               [conceptual_questions, practical_tasks, feedback_generation, conclusion]"
    by (simp add: stateFlow_def)
  then show ?thesis using linearHistory_chain [OF inv] by blast
qed



lemma example_history:
  "map (\<lambda>tr. (from_state tr, to_state tr))
     (state_history (session (managerCalls exampleCalls (createExcelInterviewStateManager 1 5 3 0))))
   = [(introduction, conceptual_questions), (conceptual_questions, practical_tasks)]"
  by code_simp

theorem state_history_linear_witness:
  "length (state_history (session (managerCalls exampleCalls
      (createExcelInterviewStateManager 1 5 3 0)))) = 2
   \<and> from_state (state_history (session (managerCalls exampleCalls
        (createExcelInterviewStateManager 1 5 3 0))) ! 1)
       = to_state (state_history (session (managerCalls exampleCalls
          (createExcelInterviewStateManager 1 5 3 0))) ! 0)
   \<and> prefix (map to_state (state_history (session (managerCalls exampleCalls
          (createExcelInterviewStateManager 1 5 3 0)))))
        [conceptual_questions, practical_tasks, feedback_generation, conclusion]"
proof -
  let ?h = "state_history (session (managerCalls exampleCalls
              (createExcelInterviewStateManager 1 5 3 0)))"
  have "length (map (\<lambda>tr. (from_state tr, to_state tr)) ?h) = 2"
    by (simp only: example_history) simp
  then have len: "length ?h = 2" by simp
  then have one: "1 < length ?h" by simp
  from state_history_linear [of exampleCalls 1 5 3 0] one
  have "from_state (?h ! 1) = (if (1::nat) = 0 then introduction else to_state (?h ! (1 - 1)))"
    by blast
  then have "from_state (?h ! 1) = to_state (?h ! 0)" by simp
  with len state_history_linear [of exampleCalls 1 5 3 0] show ?thesis by blast
qed

text \<open>
  Claim C2, as stated, fails: the history of a fresh session is empty and its first entry
  records the transition into \<open>conceptual_questions\<close>, so after one transition the
  \<open>to_state\<close> values are not a prefix of a list that starts with \<open>introduction\<close>.
\<close>

theorem state_history_counterexample:
  "\<not> prefix (map to_state (state_history (session (managerCalls
                [(0, TransitionTo conceptual_questions None)]
                (createExcelInterviewStateManager 1 5 3 0)))))
       [introduction, conceptual_questions, practical_tasks, feedback_generation, conclusion]"
  by (simp add: createExcelInterviewStateManager_def transition_to_def can_transition_def
      getValidTransitions_def Let_def updateStateData_state_history)


text \<open>
  Claim C6. Whenever \<open>transition_to\<close> is called with a target state that is not an allowed
  successor of the current state, and so on every call made in the terminal state
  \<open>conclusion\<close>, it returns \<open>false\<close> (the model has no branch that throws) and the manager,
  hence the whole session with its current state, history, state data, end time and
  total duration, is the one before the call. Every state has at most one allowed
  successor.
\<close>

theorem transition_to_rejects_invalid:
  "(new_state \<notin> set (getValidTransitions (current_state (session mgr)))
      \<longrightarrow> transition_to new_state d now mgr = (False, mgr))
   \<and> (current_state (session mgr) = conclusion
      \<longrightarrow> transition_to new_state d now mgr = (False, mgr))
   \<and> length (getValidTransitions st) \<le> 1"
proof (intro conjI impI)
  assume "new_state \<notin> set (getValidTransitions (current_state (session mgr)))"
  then show "transition_to new_state d now mgr = (False, mgr)"
    by (simp add: transition_to_invalid can_transition_def)
next
  assume "current_state (session mgr) = conclusion"
  then have "\<not> can_transition new_state mgr"
    by (simp add: can_transition_def getValidTransitions_def)
  then show "transition_to new_state d now mgr = (False, mgr)"
    by (rule transition_to_invalid)
next
  show "length (getValidTransitions st) \<le> 1"
    by (cases st) (simp_all add: getValidTransitions_def)
qed

lemma wholeInterview_state:
  "current_state (session (managerCalls wholeInterview
     (createExcelInterviewStateManager 1 5 3 0))) = conclusion"
  by code_simp

theorem transition_to_rejects_invalid_witness:
  "practical_tasks \<notin> set (getValidTransitions
      (current_state (session (createExcelInterviewStateManager 1 5 3 0))))
   \<and> transition_to practical_tasks None 5000 (createExcelInterviewStateManager 1 5 3 0)
       = (False, createExcelInterviewStateManager 1 5 3 0)
   \<and> transition_to introduction None 80000
         (managerCalls wholeInterview (createExcelInterviewStateManager 1 5 3 0))
       = (False, managerCalls wholeInterview (createExcelInterviewStateManager 1 5 3 0))"
proof -
  have a: "practical_tasks \<notin> set (getValidTransitions
      (current_state (session (createExcelInterviewStateManager 1 5 3 0))))"
    by (simp add: createExcelInterviewStateManager_def getValidTransitions_def)
  show ?thesis
    using a wholeInterview_state
      transition_to_rejects_invalid [of practical_tasks
        "createExcelInterviewStateManager 1 5 3 0" None 5000 introduction]
      transition_to_rejects_invalid [of introduction
        "managerCalls wholeInterview (createExcelInterviewStateManager 1 5 3 0)" None 80000
        introduction]
    by blast
qed

section \<open>The skill level recommendation\<close>

text \<open>
  Claim C4, as stated, fails: the recommendation does not consult the threshold table. A
  basic candidate with an overall score of 80, above the threshold of 75, who
  demonstrated \<open>VLOOKUP\<close> is held at basic; an intermediate candidate with a score of 50,
  below the threshold, is not held but moved down to basic.
\<close>

theorem recommended_level_counterexample:
  "getReadinessThreshold basic \<le> 80
   \<and> getRecommendedLevel storedConfigs basic 80 [''VLOOKUP'']
       \<noteq> thresholdRecommendation basic 80
   \<and> \<not> getReadinessThreshold intermediate \<le> 50
   \<and> getRecommendedLevel storedConfigs intermediate 50 [] \<noteq> intermediate"
  by (simp add: getReadinessThreshold_def getRecommendedLevel_def thresholdRecommendation_def
      storedConfigs_def nextLevel_def advancedFunctionNames_def)

lemma find_skill_level:
  "find (\<lambda>c. skill_level c = l) configs = None \<longleftrightarrow> l \<notin> skill_level ` set configs"
  by (auto simp: find_None_iff)

text \<open>
  Claim C4, amended. The readiness thresholds are 75 for basic, 80 for intermediate and
  85 for advanced; the analytics service compares its progression score with them to
  say whether a candidate is ready for the next level, but the recommended level of the
  report is not derived from them. For every current
  level, overall score and list of demonstrated functions: if no configuration is stored
  for the current level the recommendation is the current level; otherwise it advances
  exactly one level when the score is above 85 and enough advanced functions were
  demonstrated (at least one from basic, at least three from intermediate), else it
  moves down exactly one level when the score is below 60 and the current level is not
  basic, else it holds. In every case the recommendation is at most one level away from
  the current level.
\<close>

theorem recommended_level_rule:
  "getRecommendedLevel configs currentLevel score fns =
     (if currentLevel \<notin> skill_level ` set configs then currentLevel
      else if score > 85 \<and> currentLevel = basic
              \<and> length (filter (\<lambda>func. func \<in> set advancedFunctionNames) fns) \<ge> 1
      then intermediate
      else if score > 85 \<and> currentLevel = intermediate
              \<and> length (filter (\<lambda>func. func \<in> set advancedFunctionNames) fns) \<ge> 3
      then advanced
      else if score < 60 \<and> currentLevel = advanced then intermediate
      else if score < 60 \<and> currentLevel = intermediate then basic
      else currentLevel)
   \<and> \<bar>levelRank (getRecommendedLevel configs currentLevel score fns) - levelRank currentLevel\<bar> \<le> 1
   \<and> getReadinessThreshold basic = 75 \<and> getReadinessThreshold intermediate = 80
   \<and> getReadinessThreshold advanced = 85"
proof (intro conjI)
  show rule: "getRecommendedLevel configs currentLevel score fns =
     (if currentLevel \<notin> skill_level ` set configs then currentLevel
      else if score > 85 \<and> currentLevel = basic
              \<and> length (filter (\<lambda>func. func \<in> set advancedFunctionNames) fns) \<ge> 1
      then intermediate
      else if score > 85 \<and> currentLevel = intermediate
              \<and> length (filter (\<lambda>func. func \<in> set advancedFunctionNames) fns) \<ge> 3
      then advanced
      else if score < 60 \<and> currentLevel = advanced then intermediate
      else if score < 60 \<and> currentLevel = intermediate then basic
      else currentLevel)"
  proof (cases "find (\<lambda>c. skill_level c = currentLevel) configs")
    case None
    then show ?thesis
      using find_skill_level [of currentLevel configs] by (simp add: getRecommendedLevel_def)
  next
    case (Some c)
    then have "currentLevel \<in> skill_level ` set configs"
      using find_skill_level [of currentLevel configs] by simp
    moreover have "(2 < n) = (3 \<le> n)" "(0 < n) = (1 \<le> n)" for n :: nat by arith+
    ultimately show ?thesis using Some
      by (simp add: getRecommendedLevel_def Let_def)
  qed
  show "\<bar>levelRank (getRecommendedLevel configs currentLevel score fns) - levelRank currentLevel\<bar> \<le> 1"
    unfolding rule by (cases currentLevel) (simp_all add: levelRank_def)
qed (simp_all add: getReadinessThreshold_def)

theorem recommended_level_rule_witness:
  "getRecommendedLevel storedConfigs basic 90 [''VLOOKUP''] = intermediate
   \<and> getRecommendedLevel storedConfigs intermediate 50 [] = basic
   \<and> getRecommendedLevel storedConfigs basic 80 [''VLOOKUP''] = basic"
  using recommended_level_rule [of storedConfigs basic 90 "[''VLOOKUP'']"]
    recommended_level_rule [of storedConfigs intermediate 50 "[]"]
    recommended_level_rule [of storedConfigs basic 80 "[''VLOOKUP'']"]
  by (simp add: storedConfigs_def advancedFunctionNames_def)


end
